theory Spec2Isabelle
  imports Main "HOL-Library.Sublist"
begin

section \<open>Python strings\<close>

text \<open>
  The crawler \<^verbatim>\<open>scripts/crawl_kde_wallpapers.py\<close> works on Python \<^verbatim>\<open>str\<close> values:
  sequences of Unicode code points. A code point is a natural number here, a string a
  list of them, and \<open>py ''abc''\<close> is the string of an ASCII literal.
\<close>

type_synonym py_str = "nat list"

abbreviation py :: "string \<Rightarrow> py_str" where
  "py s \<equiv> map of_char s"

text \<open>\<^verbatim>\<open>sub in s\<close> on strings: \<open>sub\<close> occurs in \<open>s\<close> as a contiguous run.\<close>

fun py_startswith :: "py_str \<Rightarrow> py_str \<Rightarrow> bool" where
  "py_startswith s [] = True"
| "py_startswith [] (p # ps) = False"
| "py_startswith (c # cs) (p # ps) = (c = p \<and> py_startswith cs ps)"

fun py_in :: "py_str \<Rightarrow> py_str \<Rightarrow> bool" where
  "py_in sub [] = (sub = [])"
| "py_in sub (c # cs) = (py_startswith (c # cs) sub \<or> py_in sub cs)"

text \<open>\<^verbatim>\<open>s.endswith(sfx)\<close>, and \<^verbatim>\<open>s.endswith((a, b, ...))\<close> with a tuple of suffixes.\<close>

definition py_endswith :: "py_str \<Rightarrow> py_str \<Rightarrow> bool" where
  "py_endswith s sfx = (length sfx \<le> length s \<and> drop (length s - length sfx) s = sfx)"

definition py_endswith_any :: "py_str \<Rightarrow> py_str list \<Rightarrow> bool" where
  "py_endswith_any s sfxs = list_ex (py_endswith s) sfxs"

text \<open>\<^verbatim>\<open>s.strip(chars)\<close>: drops the leading and the trailing characters that are in \<open>chars\<close>.\<close>

definition py_strip :: "py_str \<Rightarrow> py_str \<Rightarrow> py_str" where
  "py_strip chars s =
     rev (dropWhile (\<lambda>c. c \<in> set chars) (rev (dropWhile (\<lambda>c. c \<in> set chars) s)))"

text \<open>
  The characters the regular expression \<^verbatim>\<open>\s\<close> matches in a \<^verbatim>\<open>str\<close> pattern: Unicode
  white space (tab to carriage return, the separators U+001C to U+001F, space, U+0085,
  U+00A0, U+1680, U+2000 to U+200A, U+2028, U+2029, U+202F, U+205F, U+3000).
\<close>

definition py_isspace :: "nat \<Rightarrow> bool" where
  "py_isspace c =
     ((9 \<le> c \<and> c \<le> 13) \<or> (28 \<le> c \<and> c \<le> 32) \<or> c = 133 \<or> c = 160 \<or> c = 5760
      \<or> (8192 \<le> c \<and> c \<le> 8202) \<or> c = 8232 \<or> c = 8233 \<or> c = 8239 \<or> c = 8287
      \<or> c = 12288)"

text \<open>\<^verbatim>\<open>str(i)\<close> for a natural number: its decimal digits (used by the f-strings).\<close>

fun str_int :: "nat \<Rightarrow> py_str" where
  "str_int n = (if n < 10 then [48 + n] else str_int (n div 10) @ [48 + n mod 10])"

declare str_int.simps [simp del]

text \<open>\<^verbatim>\<open>os.path.basename\<close> (POSIX): what follows the last slash (code point 47).\<close>

definition basename :: "py_str \<Rightarrow> py_str" where
  "basename p = rev (takeWhile (\<lambda>c. c \<noteq> 47) (rev p))"

section \<open>The filename sanitizer\<close>

text \<open>
  \<^verbatim>\<open>
  def sanitize_filename(name):
      name = re.sub(r'[<>:"/\\|?*]', '_', name)
      name = re.sub(r'\s+', '_', name)
      name = name.strip('._')
      return name or "unknown"
  \<close>
  The character class holds \<^verbatim>\<open>< > : " / \ | ? *\<close> (code points 60, 62, 58, 34, 47, 92,
  124, 63, 42); the underscore is code point 95.
\<close>

definition forbidden_chars :: "nat list" where
  "forbidden_chars = [60, 62, 58, 34, 47, 92, 124, 63, 42]"

definition sub_forbidden :: "py_str \<Rightarrow> py_str" where
  "sub_forbidden name = map (\<lambda>c. if c \<in> set forbidden_chars then 95 else c) name"

text \<open>\<^verbatim>\<open>re.sub(r'\s+', '_', name)\<close>: every maximal run of white space becomes one underscore.\<close>

function sub_whitespace :: "py_str \<Rightarrow> py_str" where
  "sub_whitespace [] = []"
| "sub_whitespace (c # cs) =
     (if py_isspace c then 95 # sub_whitespace (dropWhile py_isspace cs)
      else c # sub_whitespace cs)"
  by pat_completeness auto
termination
  by (relation "measure length") (auto simp: length_dropWhile_le less_Suc_eq_le)

definition sanitize_filename :: "py_str \<Rightarrow> py_str" where
  "sanitize_filename name =
     (let name1 = sub_forbidden name;
          name2 = sub_whitespace name1;
          name3 = py_strip (py ''._'') name2
      in if name3 = [] then py ''unknown'' else name3)"

section \<open>Exceptions, the filesystem and the outside world\<close>

text \<open>
  Every exception of the model is a subclass of Python's \<^verbatim>\<open>Exception\<close>.
  \<open>HTTPError\<close> (what \<^verbatim>\<open>raise_for_status\<close> raises) is a subclass of
  \<^verbatim>\<open>requests.RequestException\<close>; \<open>ApiError\<close> is the plain \<^verbatim>\<open>Exception\<close> the listing
  fetcher raises; \<open>OtherException\<close> stands for anything else a library raises
  (\<^verbatim>\<open>tarfile.TarError\<close>, \<^verbatim>\<open>zipfile.BadZipFile\<close>, \<^verbatim>\<open>OSError\<close>, ...).
\<close>

datatype exn =
    RequestException
  | HTTPError nat
  | ParseError
  | ApiError "py_str option"
  | OtherException

fun is_RequestException :: "exn \<Rightarrow> bool" where
  "is_RequestException RequestException = True"
| "is_RequestException (HTTPError code) = True"
| "is_RequestException e = False"

text \<open>
  A \<^verbatim>\<open>pathlib.Path\<close> is the list of its components: \<^verbatim>\<open>p / name\<close> appends one component
  (exact for a name with no slash in it), \<^verbatim>\<open>p.parent\<close> drops the last one, \<^verbatim>\<open>str(p)\<close>
  joins them with slashes. The filesystem maps the paths that exist to what is there.
  Calls of the filesystem succeed: the program handles none of their errors, and the
  model has no full disk and no missing permission.
\<close>

type_synonym path = "py_str list"

datatype node = Dir | File "nat list"

type_synonym filesystem = "path \<rightharpoonup> node"

fun path_str :: "path \<Rightarrow> py_str" where
  "path_str [] = py ''.''"
| "path_str [c] = c"
| "path_str (c # d # cs) = c @ [47] @ path_str (d # cs)"

text \<open>
  What the program does to the outside, in order: HTTP requests, sleeps (in seconds)
  and calls of the archive libraries. Printing is not modelled.
\<close>

datatype event =
    Get py_str
  | Sleep nat
  | TarExtract path path
  | ZipExtract path path

record world =
  fs :: filesystem
  trace :: "event list"

definition path_exists :: "world \<Rightarrow> path \<Rightarrow> bool" where
  "path_exists w p = (fs w p \<noteq> None)"

text \<open>\<^verbatim>\<open>p.mkdir(parents=True, exist_ok=True)\<close>: \<open>p\<close> and each missing ancestor becomes a directory.\<close>

definition mkdir_p :: "path \<Rightarrow> filesystem \<Rightarrow> filesystem" where
  "mkdir_p p m =
     foldl (\<lambda>m q. if m q = None then m(q \<mapsto> Dir) else m) m
       (map (\<lambda>n. take n p) [1..<Suc (length p)])"

definition time_sleep :: "nat \<Rightarrow> world \<Rightarrow> world" where
  "time_sleep seconds w = w\<lparr>trace := trace w @ [Sleep seconds]\<rparr>"

subsection \<open>XML documents\<close>

text \<open>
  An element as \<^verbatim>\<open>xml.etree.ElementTree\<close> has it: a tag, a text (\<^verbatim>\<open>None\<close> when the
  element has none) and its children in document order.
\<close>

datatype xml = Element (elem_tag: py_str) (elem_text: "py_str option") (elem_children: "xml list")

text \<open>\<^verbatim>\<open>.//tag\<close> ranges over the descendants of an element (not the element), in document order.\<close>

fun descendants :: "xml \<Rightarrow> xml list" where
  "descendants (Element t x cs) = concat (map (\<lambda>c. c # descendants c) cs)"

definition find_desc :: "py_str \<Rightarrow> xml \<Rightarrow> xml option" where
  "find_desc t root = find (\<lambda>e. elem_tag e = t) (descendants root)"

definition findall_desc :: "py_str \<Rightarrow> xml \<Rightarrow> xml list" where
  "findall_desc t root = filter (\<lambda>e. elem_tag e = t) (descendants root)"

text \<open>
  \<^verbatim>\<open>e.findtext(tag, default)\<close>: the text of the first child with that tag (the empty
  string when that child has no text), \<open>default\<close> when there is no such child.
\<close>

definition findtext :: "xml \<Rightarrow> py_str \<Rightarrow> py_str \<Rightarrow> py_str" where
  "findtext e t dflt =
     (case find (\<lambda>c. elem_tag c = t) (elem_children e) of
        None \<Rightarrow> dflt
      | Some c \<Rightarrow> (case elem_text c of None \<Rightarrow> [] | Some s \<Rightarrow> s))"

subsection \<open>The libraries and the remote server\<close>

text \<open>
  An HTTP response: its status, its body as \<^verbatim>\<open>ET.fromstring\<close> parses it (\<open>None\<close> when it
  is not well-formed XML), and its body as \<^verbatim>\<open>iter_content\<close> streams it: the chunks it
  yields, then the exception it raises, if any (a connection that breaks mid-body).
\<close>

record response =
  status_code :: nat
  body_xml :: "xml option"
  chunks :: "nat list list"
  stream_error :: "exn option"

text \<open>
  What the program does not define itself is a parameter of the model:
  \<^item> \<open>http_get\<close>: the answer of \<^verbatim>\<open>session.get\<close> to a URL, an exception or a response; it may
    depend on everything that happened before (earlier requests, time slept);
  \<^item> \<open>tar_extractall\<close>, \<open>zip_extractall\<close>: what opening and extracting an archive writes
    (paths with their new content), and the exception it ends with, if any;
  \<^item> \<open>urlparse_path\<close>: \<^verbatim>\<open>urlparse(url).path\<close>;
  \<^item> \<open>str_lower\<close>: \<^verbatim>\<open>str.lower\<close>.
\<close>

record pylib =
  http_get :: "event list \<Rightarrow> py_str \<Rightarrow> exn + response"
  tar_extractall :: "path \<Rightarrow> path \<Rightarrow> filesystem \<Rightarrow> (path \<times> node) list \<times> exn option"
  zip_extractall :: "path \<Rightarrow> path \<Rightarrow> filesystem \<Rightarrow> (path \<times> node) list \<times> exn option"
  urlparse_path :: "py_str \<Rightarrow> py_str"
  str_lower :: "py_str \<Rightarrow> py_str"

text \<open>
  A function of the program takes the world and returns its result, a value or the
  exception that left it, with the world as it is then: what was written before an
  exception stays written.
\<close>

definition session_get :: "pylib \<Rightarrow> py_str \<Rightarrow> world \<Rightarrow> (exn + response) \<times> world" where
  "session_get lib url w = (http_get lib (trace w) url, w\<lparr>trace := trace w @ [Get url]\<rparr>)"

text \<open>\<^verbatim>\<open>response.raise_for_status()\<close> raises for the statuses 400 to 599.\<close>

definition raise_for_status :: "response \<Rightarrow> exn option" where
  "raise_for_status r =
     (if 400 \<le> status_code r \<and> status_code r < 600 then Some (HTTPError (status_code r))
      else None)"

section \<open>Configuration\<close>

definition OCS_API_URL :: py_str where
  "OCS_API_URL = py ''https://api.opendesktop.org/ocs/v1''"

definition CATEGORY_ID :: nat where
  "CATEGORY_ID = 419"

definition OUTPUT_DIR :: path where
  "OUTPUT_DIR = [py ''wallpaper-example'']"

definition DELAY_BETWEEN_REQUESTS :: nat where
  "DELAY_BETWEEN_REQUESTS = 3"

definition MAX_RETRIES :: nat where
  "MAX_RETRIES = 3"

definition RETRY_DELAY :: nat where
  "RETRY_DELAY = 10"

section \<open>The listing and detail fetchers\<close>

text \<open>
  The dictionaries the fetchers build, as records. \<open>item_downloadlink1\<close> is the
  \<^verbatim>\<open>downloadlink1\<close> entry of a listed item; the \<^verbatim>\<open>downloads\<close> of a detail are
  dictionaries with the keys \<^verbatim>\<open>url\<close> and \<^verbatim>\<open>name\<close>.
\<close>

record content_item =
  item_id :: py_str
  item_name :: py_str
  item_version :: py_str
  item_personid :: py_str
  item_description :: py_str
  item_downloadlink1 :: py_str

record download =
  dl_url :: py_str
  dl_name :: py_str

record content_detail =
  detail_id :: py_str
  detail_name :: py_str
  detail_version :: py_str
  detail_personid :: py_str
  detail_description :: py_str
  downloads :: "download list"

text \<open>
  \<^verbatim>\<open>session.get(url, params=...)\<close> of the listing request: the parameters travel as the
  query string of the URL.
\<close>

definition listing_url :: py_str where
  "listing_url =
     OCS_API_URL @ py ''/content/data'' @ py ''?categories='' @ str_int CATEGORY_ID
       @ py ''&pagesize='' @ str_int 100 @ py ''&page='' @ str_int 0"

definition item_of_content :: "xml \<Rightarrow> content_item" where
  "item_of_content content =
     \<lparr>item_id = findtext content (py ''id'') [],
      item_name = findtext content (py ''name'') [],
      item_version = findtext content (py ''version'') [],
      item_personid = findtext content (py ''personid'') [],
      item_description = findtext content (py ''description'') [],
      item_downloadlink1 = findtext content (py ''downloadlink1'') []\<rparr>"

text \<open>
  \<^verbatim>\<open>get_all_content_items\<close>: one request; \<^verbatim>\<open>raise_for_status\<close>; the body parsed; an
  exception when there is a \<^verbatim>\<open>status\<close> element whose text is not \<^verbatim>\<open>ok\<close>; then one
  item for each \<^verbatim>\<open>content\<close> element.
\<close>

definition get_all_content_items :: "pylib \<Rightarrow> world \<Rightarrow> (exn + content_item list) \<times> world" where
  "get_all_content_items lib w =
     (case session_get lib listing_url w of
        (Inl e, w1) \<Rightarrow> (Inl e, w1)
      | (Inr response, w1) \<Rightarrow>
          (case raise_for_status response of
             Some e \<Rightarrow> (Inl e, w1)
           | None \<Rightarrow>
               (case body_xml response of
                  None \<Rightarrow> (Inl ParseError, w1)
                | Some root \<Rightarrow>
                    (case find_desc (py ''status'') root of
                       None \<Rightarrow> (Inr (map item_of_content (findall_desc (py ''content'') root)), w1)
                     | Some status \<Rightarrow>
                         if elem_text status \<noteq> Some (py ''ok'')
                         then (Inl (ApiError (elem_text status)), w1)
                         else (Inr (map item_of_content (findall_desc (py ''content'') root)), w1)))))"

definition detail_url :: "py_str \<Rightarrow> py_str" where
  "detail_url content_id = OCS_API_URL @ py ''/content/data/'' @ content_id"

text \<open>The loop \<^verbatim>\<open>for i in range(1, 10)\<close> over the numbered link and name fields.\<close>

definition download_entry :: "xml \<Rightarrow> nat \<Rightarrow> download list" where
  "download_entry content i =
     (let link = findtext content (py ''downloadlink'' @ str_int i) [];
          name = findtext content (py ''downloadname'' @ str_int i) []
      in if link \<noteq> []
         then [\<lparr>dl_url = link, dl_name = (if name \<noteq> [] then name else py ''file'' @ str_int i)\<rparr>]
         else [])"

definition collect_downloads :: "xml \<Rightarrow> download list" where
  "collect_downloads content = concat (map (download_entry content) [1..<10])"

definition detail_of_content :: "xml \<Rightarrow> content_detail" where
  "detail_of_content content =
     \<lparr>detail_id = findtext content (py ''id'') [],
      detail_name = findtext content (py ''name'') [],
      detail_version = findtext content (py ''version'') [],
      detail_personid = findtext content (py ''personid'') [],
      detail_description = findtext content (py ''description'') [],
      downloads = collect_downloads content\<rparr>"

text \<open>
  \<^verbatim>\<open>get_content_details\<close>: one request to the detail URL of \<open>content_id\<close>; \<open>None\<close> when the
  answer has no \<^verbatim>\<open>content\<close> element; every field of the result, the \<^verbatim>\<open>id\<close> too, is read
  from the answer.
\<close>

definition get_content_details ::
  "pylib \<Rightarrow> py_str \<Rightarrow> world \<Rightarrow> (exn + content_detail option) \<times> world" where
  "get_content_details lib content_id w =
     (case session_get lib (detail_url content_id) w of
        (Inl e, w1) \<Rightarrow> (Inl e, w1)
      | (Inr response, w1) \<Rightarrow>
          (case raise_for_status response of
             Some e \<Rightarrow> (Inl e, w1)
           | None \<Rightarrow>
               (case body_xml response of
                  None \<Rightarrow> (Inl ParseError, w1)
                | Some root \<Rightarrow>
                    (case find_desc (py ''content'') root of
                       None \<Rightarrow> (Inr None, w1)
                     | Some content \<Rightarrow> (Inr (Some (detail_of_content content)), w1)))))"

section \<open>The downloader\<close>

text \<open>
  The body of one pass of the retry loop, inside its \<^verbatim>\<open>try\<close>: the request; on status
  429 a sleep of \<^verbatim>\<open>RETRY_DELAY * (attempt + 1)\<close> seconds and \<^verbatim>\<open>continue\<close>; otherwise
  \<^verbatim>\<open>raise_for_status\<close>, the parent directory, and the file opened for writing (created
  or truncated) and filled with the chunks the response yields; \<^verbatim>\<open>return True\<close> when
  the stream ends without an exception.
\<close>

datatype attempt_result = Continue | ReturnTrue

definition write_chunks :: "path \<Rightarrow> response \<Rightarrow> world \<Rightarrow> world" where
  "write_chunks output_path response w =
     w\<lparr>fs := (mkdir_p (butlast output_path) (fs w))(output_path \<mapsto> File (concat (chunks response)))\<rparr>"

definition download_attempt ::
  "pylib \<Rightarrow> py_str \<Rightarrow> path \<Rightarrow> nat \<Rightarrow> world \<Rightarrow> (exn + attempt_result) \<times> world" where
  "download_attempt lib url output_path attempt w =
     (case session_get lib url w of
        (Inl e, w1) \<Rightarrow> (Inl e, w1)
      | (Inr response, w1) \<Rightarrow>
          if status_code response = 429
          then (Inr Continue, time_sleep (RETRY_DELAY * (attempt + 1)) w1)
          else
            (case raise_for_status response of
               Some e \<Rightarrow> (Inl e, w1)
             | None \<Rightarrow>
                 (case stream_error response of
                    Some e \<Rightarrow> (Inl e, write_chunks output_path response w1)
                  | None \<Rightarrow> (Inr ReturnTrue, write_chunks output_path response w1))))"

text \<open>
  The loop \<^verbatim>\<open>for attempt in range(MAX_RETRIES)\<close> with its handler: a
  \<^verbatim>\<open>RequestException\<close> is followed by a sleep and the next pass, or by \<^verbatim>\<open>return False\<close> on
  the last pass; any other exception leaves the function; \<^verbatim>\<open>return False\<close> after the
  loop.
\<close>

fun download_loop ::
  "pylib \<Rightarrow> py_str \<Rightarrow> path \<Rightarrow> nat list \<Rightarrow> world \<Rightarrow> (exn + bool) \<times> world" where
  "download_loop lib url output_path [] w = (Inr False, w)"
| "download_loop lib url output_path (attempt # rest) w =
     (case download_attempt lib url output_path attempt w of
        (Inr Continue, w1) \<Rightarrow> download_loop lib url output_path rest w1
      | (Inr ReturnTrue, w1) \<Rightarrow> (Inr True, w1)
      | (Inl e, w1) \<Rightarrow>
          if is_RequestException e
          then (if attempt < MAX_RETRIES - 1
                then download_loop lib url output_path rest
                       (time_sleep (RETRY_DELAY * (attempt + 1)) w1)
                else (Inr False, w1))
          else (Inl e, w1))"

definition download_file :: "pylib \<Rightarrow> py_str \<Rightarrow> path \<Rightarrow> world \<Rightarrow> (exn + bool) \<times> world" where
  "download_file lib url output_path w = download_loop lib url output_path [0..<MAX_RETRIES] w"

section \<open>The archive extractor\<close>

text \<open>
  The body of the \<^verbatim>\<open>try\<close> of \<^verbatim>\<open>extract_archive\<close>: the tar library for a path whose string
  ends in one of the four tar suffixes, else the zip library for one that ends in
  \<^verbatim>\<open>.zip\<close>, else nothing (\<open>None\<close>: the \<^verbatim>\<open>try\<close> is left without a \<^verbatim>\<open>return\<close>).
\<close>

definition tar_suffixes :: "py_str list" where
  "tar_suffixes = [py ''.tar.gz'', py ''.tgz'', py ''.tar.xz'', py ''.tar.bz2'']"

definition run_archive_library ::
  "(path \<times> node) list \<times> exn option \<Rightarrow> event \<Rightarrow> world \<Rightarrow> (exn + bool option) \<times> world" where
  "run_archive_library outcome ev w =
     (let w1 = w\<lparr>fs := fs w ++ map_of (fst outcome), trace := trace w @ [ev]\<rparr>
      in case snd outcome of Some e \<Rightarrow> (Inl e, w1) | None \<Rightarrow> (Inr (Some True), w1))"

definition extract_try :: "pylib \<Rightarrow> path \<Rightarrow> path \<Rightarrow> world \<Rightarrow> (exn + bool option) \<times> world" where
  "extract_try lib archive_path extract_dir w =
     (if py_endswith_any (path_str archive_path) tar_suffixes
      then run_archive_library (tar_extractall lib archive_path extract_dir (fs w))
             (TarExtract archive_path extract_dir) w
      else if py_endswith (path_str archive_path) (py ''.zip'')
      then run_archive_library (zip_extractall lib archive_path extract_dir (fs w))
             (ZipExtract archive_path extract_dir) w
      else (Inr None, w))"

text \<open>
  \<^verbatim>\<open>extract_archive\<close>: \<^verbatim>\<open>except Exception\<close> takes every exception of the body, and the
  function then ends with its last line, \<^verbatim>\<open>return False\<close>.
\<close>

definition extract_archive :: "pylib \<Rightarrow> path \<Rightarrow> path \<Rightarrow> world \<Rightarrow> (exn + bool) \<times> world" where
  "extract_archive lib archive_path extract_dir w =
     (case extract_try lib archive_path extract_dir w of
        (Inl e, w1) \<Rightarrow> (Inr False, w1)
      | (Inr (Some b), w1) \<Rightarrow> (Inr b, w1)
      | (Inr None, w1) \<Rightarrow> (Inr False, w1))"

section \<open>The orchestrator\<close>

record counters =
  downloaded_count :: nat
  failed_count :: nat
  skipped_count :: nat

text \<open>The test \<^verbatim>\<open>any(ext in filename.lower() for ext in [...])\<close> of the link loop.\<close>

definition source_exts :: "py_str list" where
  "source_exts = [py ''.tar.gz'', py ''.tar.xz'', py ''.tgz'', py ''.zip'', py ''.tar.bz2'']"

definition is_source_archive :: "pylib \<Rightarrow> py_str \<Rightarrow> bool" where
  "is_source_archive lib filename =
     list_ex (\<lambda>ext. py_in ext (str_lower lib filename)) source_exts"

text \<open>
  The name a link is stored under: the basename of the URL's path, or the link's
  \<^verbatim>\<open>name\<close> when that is empty; when no extension occurs in it, the name
  \<^verbatim>\<open>{plugin_name}.tar.gz\<close> if \<^verbatim>\<open>download\<close> occurs in the lowercased URL, and no name at all
  otherwise (\<open>None\<close>: the loop goes on to the next link).
\<close>

definition url_filename :: "pylib \<Rightarrow> download \<Rightarrow> py_str" where
  "url_filename lib dl =
     (let filename = basename (urlparse_path lib (dl_url dl))
      in if filename = [] then dl_name dl else filename)"

definition target_filename :: "pylib \<Rightarrow> py_str \<Rightarrow> download \<Rightarrow> py_str option" where
  "target_filename lib plugin_name dl =
     (let filename = url_filename lib dl
      in if \<not> is_source_archive lib filename
         then (if py_in (py ''download'') (str_lower lib (dl_url dl))
               then Some (plugin_name @ py ''.tar.gz'')
               else None)
         else Some filename)"

text \<open>
  The rest of the loop body, from \<^verbatim>\<open>output_path = plugin_dir / filename\<close> on: a file
  that exists is counted as skipped; otherwise a sleep, the download, and after a
  download that returned \<^verbatim>\<open>True\<close> the extraction into \<^verbatim>\<open>src\<close> unless that exists (the
  result of \<^verbatim>\<open>extract_archive\<close> is not looked at).
\<close>

definition fetch_link ::
  "pylib \<Rightarrow> py_str \<Rightarrow> path \<Rightarrow> py_str \<Rightarrow> counters \<Rightarrow> world \<Rightarrow> (exn + counters) \<times> world" where
  "fetch_link lib url plugin_dir filename c w =
     (let output_path = plugin_dir @ [filename]
      in if path_exists w output_path
         then (Inr (c\<lparr>skipped_count := skipped_count c + 1\<rparr>), w)
         else
           (case download_file lib url output_path (time_sleep DELAY_BETWEEN_REQUESTS w) of
              (Inl e, w1) \<Rightarrow> (Inl e, w1)
            | (Inr True, w1) \<Rightarrow>
                (let c1 = c\<lparr>downloaded_count := downloaded_count c + 1\<rparr>;
                     extract_dir = plugin_dir @ [py ''src'']
                 in if \<not> path_exists w1 extract_dir
                    then (case extract_archive lib output_path extract_dir w1 of
                            (Inl e, w2) \<Rightarrow> (Inl e, w2)
                          | (Inr b, w2) \<Rightarrow> (Inr c1, w2))
                    else (Inr c1, w1))
            | (Inr False, w1) \<Rightarrow> (Inr (c\<lparr>failed_count := failed_count c + 1\<rparr>), w1)))"

text \<open>The body of \<^verbatim>\<open>for dl in details["downloads"]\<close>.\<close>

definition process_download ::
  "pylib \<Rightarrow> py_str \<Rightarrow> path \<Rightarrow> download \<Rightarrow> counters \<Rightarrow> world \<Rightarrow> (exn + counters) \<times> world" where
  "process_download lib plugin_name plugin_dir dl c w =
     (if dl_url dl = [] then (Inr c, w)
      else
        (case target_filename lib plugin_name dl of
           None \<Rightarrow> (Inr c, w)
         | Some filename \<Rightarrow> fetch_link lib (dl_url dl) plugin_dir filename c w))"

fun process_downloads ::
  "pylib \<Rightarrow> py_str \<Rightarrow> path \<Rightarrow> download list \<Rightarrow> counters \<Rightarrow> world \<Rightarrow> (exn + counters) \<times> world" where
  "process_downloads lib plugin_name plugin_dir [] c w = (Inr c, w)"
| "process_downloads lib plugin_name plugin_dir (dl # dls) c w =
     (case process_download lib plugin_name plugin_dir dl c w of
        (Inl e, w1) \<Rightarrow> (Inl e, w1)
      | (Inr c1, w1) \<Rightarrow> process_downloads lib plugin_name plugin_dir dls c1 w1)"

text \<open>
  The body of \<^verbatim>\<open>for i, item in enumerate(items, 1)\<close>: the sanitized directory name, a
  sleep, the detail request; an item with no detail or no downloads is counted as
  failed. An exception of the detail request is not caught anywhere in \<^verbatim>\<open>main\<close>.
\<close>

definition process_item ::
  "pylib \<Rightarrow> content_item \<Rightarrow> counters \<Rightarrow> world \<Rightarrow> (exn + counters) \<times> world" where
  "process_item lib item c w =
     (let plugin_name = sanitize_filename (item_name item);
          plugin_dir = OUTPUT_DIR @ [plugin_name]
      in case get_content_details lib (item_id item) (time_sleep DELAY_BETWEEN_REQUESTS w) of
           (Inl e, w1) \<Rightarrow> (Inl e, w1)
         | (Inr None, w1) \<Rightarrow> (Inr (c\<lparr>failed_count := failed_count c + 1\<rparr>), w1)
         | (Inr (Some details), w1) \<Rightarrow>
             if downloads details = []
             then (Inr (c\<lparr>failed_count := failed_count c + 1\<rparr>), w1)
             else process_downloads lib plugin_name plugin_dir (downloads details) c w1)"

fun process_items ::
  "pylib \<Rightarrow> content_item list \<Rightarrow> counters \<Rightarrow> world \<Rightarrow> (exn + counters) \<times> world" where
  "process_items lib [] c w = (Inr c, w)"
| "process_items lib (item # items) c w =
     (case process_item lib item c w of
        (Inl e, w1) \<Rightarrow> (Inl e, w1)
      | (Inr c1, w1) \<Rightarrow> process_items lib items c1 w1)"

text \<open>
  \<^verbatim>\<open>main\<close>: the output directory, the listing, the three counters at zero, the loop
  over the items. The result is the counters the summary prints.
\<close>

definition main :: "pylib \<Rightarrow> world \<Rightarrow> (exn + counters) \<times> world" where
  "main lib w =
     (case get_all_content_items lib (w\<lparr>fs := mkdir_p OUTPUT_DIR (fs w)\<rparr>) of
        (Inl e, w1) \<Rightarrow> (Inl e, w1)
      | (Inr items, w1) \<Rightarrow>
          process_items lib items
            \<lparr>downloaded_count = 0, failed_count = 0, skipped_count = 0\<rparr> w1)"

section \<open>Observations and test fixtures\<close>

text \<open>What a trace shows: the URLs requested, and the seconds slept.\<close>

fun requests_of :: "event list \<Rightarrow> py_str list" where
  "requests_of [] = []"
| "requests_of (Get url # evs) = url # requests_of evs"
| "requests_of (ev # evs) = requests_of evs"

fun sleeps_of :: "event list \<Rightarrow> nat list" where
  "sleeps_of [] = []"
| "sleeps_of (Sleep n # evs) = n # sleeps_of evs"
| "sleeps_of (ev # evs) = sleeps_of evs"

fun extractions_of :: "event list \<Rightarrow> event list" where
  "extractions_of [] = []"
| "extractions_of (TarExtract a d # evs) = TarExtract a d # extractions_of evs"
| "extractions_of (ZipExtract a d # evs) = ZipExtract a d # extractions_of evs"
| "extractions_of (ev # evs) = extractions_of evs"

text \<open>What one call added to the trace.\<close>

definition new_events :: "world \<Rightarrow> world \<Rightarrow> event list" where
  "new_events w w' = drop (length (trace w)) (trace w')"

text \<open>
  A remote answers every URL the same way, whatever happened before, when
  \<open>fixed_answers\<close> holds: the same remote responses on every run.
\<close>

definition fixed_answers :: "pylib \<Rightarrow> bool" where
  "fixed_answers lib = (\<forall>tr tr' url. http_get lib tr url = http_get lib tr' url)"

text \<open>
  Fixtures for concrete runs. \<open>ascii_lower\<close> is \<^verbatim>\<open>str.lower\<close> on ASCII text, and
  \<open>plain_url_path\<close> is \<^verbatim>\<open>urlparse(url).path\<close> for a URL of the shape
  \<^verbatim>\<open>scheme://host/path\<close> with no query, fragment or parameters. The catalogue lists one
  item, \<^verbatim>\<open>{id: "42", name: "Cool Wall/paper"}\<close>; its detail document carries the given id
  and the given links in the numbered fields; every other URL is answered by \<open>files\<close>.
  The archive libraries of the fixture write the extraction directory and one file.
\<close>

definition ascii_lower :: "py_str \<Rightarrow> py_str" where
  "ascii_lower s = map (\<lambda>c. if 65 \<le> c \<and> c \<le> 90 then c + 32 else c) s"

definition plain_url_path :: "py_str \<Rightarrow> py_str" where
  "plain_url_path url = dropWhile (\<lambda>c. c \<noteq> 47) (drop 2 (dropWhile (\<lambda>c. c \<noteq> 47) url))"

definition empty_world :: world where
  "empty_world = \<lparr>fs = Map.empty, trace = []\<rparr>"

definition xml_response :: "xml \<Rightarrow> response" where
  "xml_response root = \<lparr>status_code = 200, body_xml = Some root, chunks = [], stream_error = None\<rparr>"

definition file_response :: "nat list list \<Rightarrow> exn option \<Rightarrow> response" where
  "file_response cs err = \<lparr>status_code = 200, body_xml = None, chunks = cs, stream_error = err\<rparr>"

definition status_response :: "nat \<Rightarrow> response" where
  "status_response code = \<lparr>status_code = code, body_xml = None, chunks = [], stream_error = None\<rparr>"

definition leaf :: "string \<Rightarrow> py_str \<Rightarrow> xml" where
  "leaf t s = Element (py t) (Some s) []"

definition listing_xml :: xml where
  "listing_xml =
     Element (py ''ocs'') None
       [Element (py ''meta'') None [leaf ''status'' (py ''ok''), leaf ''totalitems'' (py ''1'')],
        Element (py ''data'') None
          [Element (py ''content'') None [leaf ''id'' (py ''42''), leaf ''name'' (py ''Cool Wall/paper'')]]]"

definition link_fields :: "py_str list \<Rightarrow> xml list" where
  "link_fields urls =
     map (\<lambda>(i, url). Element (py ''downloadlink'' @ str_int i) (Some url) [])
       (zip [1..<Suc (length urls)] urls)"

definition detail_xml :: "py_str \<Rightarrow> py_str list \<Rightarrow> xml" where
  "detail_xml ident urls =
     Element (py ''ocs'') None
       [Element (py ''meta'') None [leaf ''status'' (py ''ok'')],
        Element (py ''data'') None
          [Element (py ''content'') None
             ([leaf ''id'' ident, leaf ''name'' (py ''Cool Wall/paper'')] @ link_fields urls)]]"

definition fixture_extractall :: "path \<Rightarrow> path \<Rightarrow> filesystem \<Rightarrow> (path \<times> node) list \<times> exn option" where
  "fixture_extractall archive_path extract_dir m =
     ([(extract_dir, Dir), (extract_dir @ [py ''main.qml''], File [113])], None)"

definition fixture_lib :: "py_str \<Rightarrow> py_str list \<Rightarrow> (py_str \<Rightarrow> exn + response) \<Rightarrow> pylib" where
  "fixture_lib ident urls files =
     \<lparr>http_get = (\<lambda>tr url.
         if url = listing_url then Inr (xml_response listing_xml)
         else if url = detail_url (py ''42'') then Inr (xml_response (detail_xml ident urls))
         else files url),
      tar_extractall = fixture_extractall,
      zip_extractall = fixture_extractall,
      urlparse_path = plain_url_path,
      str_lower = ascii_lower\<rparr>"

text \<open>
  A server that serves every file in two chunks, one whose streams break after the
  first chunk, and one that answers every request with status 429.
\<close>

definition serve_all :: "py_str \<Rightarrow> exn + response" where
  "serve_all url = Inr (file_response [[1, 2], [3]] None)"

definition serve_truncated :: "py_str \<Rightarrow> exn + response" where
  "serve_truncated url = Inr (file_response [[1, 2]] (Some RequestException))"

definition serve_429 :: "py_str \<Rightarrow> exn + response" where
  "serve_429 url = Inr (status_response 429)"

definition item_dir :: path where
  "item_dir = OUTPUT_DIR @ [py ''Cool_Wall_paper'']"

text \<open>
  For comparing two runs: the number of links and items a run has counted, and how the
  counters \<open>k\<close>, \<open>k'\<close> of a second run move against the counters \<open>c\<close>, \<open>c'\<close> of the first
  over the same stretch of work: nothing is downloaded, as much is counted, and no more
  fails.
\<close>

definition total :: "counters \<Rightarrow> nat" where
  "total c = downloaded_count c + skipped_count c + failed_count c"

definition replay :: "counters \<Rightarrow> counters \<Rightarrow> counters \<Rightarrow> counters \<Rightarrow> bool" where
  "replay c c' k k' =
     (downloaded_count k' = downloaded_count k
      \<and> skipped_count k' + failed_count k' + total c = skipped_count k + failed_count k + total c'
      \<and> failed_count k' + failed_count c \<le> failed_count k + failed_count c')"

text \<open>
  The answer to a URL gets as far as the body: a response that is neither a 429 nor an
  error status. And: the destination holds the body of such an answer whose stream broke.
\<close>

definition writes_body :: "pylib \<Rightarrow> py_str \<Rightarrow> bool" where
  "writes_body lib url =
     (\<exists>r. http_get lib [] url = Inr r \<and> status_code r \<noteq> 429 \<and> raise_for_status r = None)"

definition partial_at :: "pylib \<Rightarrow> py_str \<Rightarrow> path \<Rightarrow> world \<Rightarrow> bool" where
  "partial_at lib url p w' =
     (\<exists>tr r e. http_get lib tr url = Inr r \<and> status_code r \<noteq> 429 \<and> raise_for_status r = None
        \<and> stream_error r = Some e \<and> is_RequestException e
        \<and> fs w' p = Some (File (concat (chunks r))))"

section \<open>Properties\<close>

subsection \<open>The sanitizer\<close>

lemma not_space_underscore: "\<not> py_isspace 95"
  by (simp add: py_isspace_def)

lemma set_sub_forbidden: "c \<in> set (sub_forbidden s) \<Longrightarrow> c \<notin> set forbidden_chars"
  by (auto simp: sub_forbidden_def forbidden_chars_def)

lemma set_sub_whitespace:
  "c \<in> set (sub_whitespace s) \<Longrightarrow> c = 95 \<or> (c \<in> set s \<and> \<not> py_isspace c)"
  by (induction s rule: sub_whitespace.induct) (auto dest: set_dropWhileD split: if_splits)

lemma set_py_strip: "c \<in> set (py_strip cs s) \<Longrightarrow> c \<in> set s"
  by (auto simp: py_strip_def dest!: set_dropWhileD)

text \<open>What is left after both ends were stripped has nothing to strip at its end.\<close>

lemma dropWhile_rev_dropWhile:
  "dropWhile P (rev (dropWhile P (rev (dropWhile P s)))) = rev (dropWhile P (rev (dropWhile P s)))"
proof (cases "dropWhile P (rev (dropWhile P s)) = []")
  case True
  then show ?thesis by (simp del: dropWhile_eq_Nil_conv)
next
  case False
  define t where "t = dropWhile P s"
  define r where "r = dropWhile P (rev t)"
  from False have r: "r \<noteq> []" by (simp add: r_def t_def)
  then have t: "t \<noteq> []" by (auto simp: r_def)
  have "\<not> P (hd t)" unfolding t_def using t hd_dropWhile[of P s] by (simp add: t_def)
  obtain ys where "rev t = ys @ r"
    unfolding r_def by (metis takeWhile_dropWhile_id)
  then have "t = rev r @ rev ys" by (metis rev_append rev_rev_ident)
  with r have "hd (rev r) = hd t" by simp
  with \<open>\<not> P (hd t)\<close> r have "dropWhile P (rev r) = rev r"
    by (cases "rev r") auto
  then show ?thesis by (simp add: r_def t_def)
qed

lemma py_strip_idem: "py_strip cs (py_strip cs s) = py_strip cs s"
  unfolding py_strip_def
  by (simp add: dropWhile_rev_dropWhile)

lemma sub_forbidden_id: "\<forall>c \<in> set s. c \<notin> set forbidden_chars \<Longrightarrow> sub_forbidden s = s"
  by (induction s) (auto simp: sub_forbidden_def)

lemma sub_whitespace_id: "\<forall>c \<in> set s. \<not> py_isspace c \<Longrightarrow> sub_whitespace s = s"
  by (induction s) auto

lemmas sanitize_eval =
  sanitize_filename_def sub_forbidden_def forbidden_chars_def py_isspace_def py_strip_def

lemma sanitize_unknown: "sanitize_filename (py ''unknown'') = py ''unknown''"
  by (simp add: sanitize_eval)

lemma sanitize_cool: "sanitize_filename (py ''Cool Wall/paper'') = py ''Cool_Wall_paper''"
  by (simp add: sanitize_eval)

lemma sanitize_chars:
  assumes "c \<in> set (sanitize_filename x)"
  shows "c \<notin> set forbidden_chars \<and> \<not> py_isspace c"
proof (cases "py_strip (py ''._'') (sub_whitespace (sub_forbidden x)) = []")
  case True
  then have "sanitize_filename x = py ''unknown''" by (simp add: sanitize_filename_def)
  with assms show ?thesis by (auto simp: forbidden_chars_def py_isspace_def)
next
  case False
  then have "sanitize_filename x = py_strip (py ''._'') (sub_whitespace (sub_forbidden x))"
    by (simp add: sanitize_filename_def)
  with assms have "c \<in> set (sub_whitespace (sub_forbidden x))" by (auto dest: set_py_strip)
  then have "c = 95 \<or> (c \<in> set (sub_forbidden x) \<and> \<not> py_isspace c)" by (rule set_sub_whitespace)
  then show ?thesis
    using not_space_underscore set_sub_forbidden by (auto simp: forbidden_chars_def)
qed

lemma sanitize_twice: "sanitize_filename (sanitize_filename x) = sanitize_filename x"
proof (cases "py_strip (py ''._'') (sub_whitespace (sub_forbidden x)) = []")
  case True
  then have "sanitize_filename x = py ''unknown''" by (simp add: sanitize_filename_def)
  then show ?thesis by (simp only: sanitize_unknown)
next
  case False
  define s where "s = sanitize_filename x"
  from False have s: "s = py_strip (py ''._'') (sub_whitespace (sub_forbidden x))" "s \<noteq> []"
    by (simp_all add: sanitize_filename_def s_def)
  have "\<forall>c \<in> set s. c \<notin> set forbidden_chars \<and> \<not> py_isspace c"
    unfolding s_def using sanitize_chars by blast
  then have "sub_forbidden s = s" "sub_whitespace s = s"
    by (simp_all add: sub_forbidden_id sub_whitespace_id)
  moreover have "py_strip (py ''._'') s = s" unfolding s(1) by (rule py_strip_idem)
  ultimately have "sanitize_filename s = s" using s(2) by (simp add: sanitize_filename_def)
  then show ?thesis by (simp add: s_def)
qed

text \<open>
  Claim C5. Sanitizing a sanitized name changes nothing:
  \<open>sanitize(sanitize(x)) = sanitize(x)\<close> for every string \<open>x\<close>; and the sanitizer, which
  reads nothing but its argument, gives equal outputs for equal inputs.
\<close>

theorem sanitize_idempotent:
  "sanitize_filename (sanitize_filename x) = sanitize_filename x
   \<and> (x = y \<longrightarrow> sanitize_filename x = sanitize_filename y)"
  by (simp add: sanitize_twice)

theorem sanitize_idempotent_witness:
  "sanitize_filename (sanitize_filename (py ''Cool Wall/paper''))
     = sanitize_filename (py ''Cool Wall/paper'')
   \<and> sanitize_filename (py ''Cool Wall/paper'') = py ''Cool_Wall_paper''
   \<and> sanitize_filename (py ''Cool_Wall_paper'') = py ''Cool_Wall_paper''"
proof -
  from sanitize_idempotent [of "py ''Cool Wall/paper''" "py ''Cool Wall/paper''"]
  have "sanitize_filename (sanitize_filename (py ''Cool Wall/paper''))
     = sanitize_filename (py ''Cool Wall/paper'')"
    by blast
  then show ?thesis by (simp only: sanitize_cool)
qed

text \<open>
  Claim C6. For every string the sanitizer returns (it is a total function) a string
  that is not empty and holds none of the characters \<^verbatim>\<open>< > : " / \ | ? *\<close> and no white
  space; the empty string and \<^verbatim>\<open>...\<close> both give \<^verbatim>\<open>unknown\<close>.
\<close>

theorem sanitize_safe:
  "sanitize_filename x \<noteq> []
   \<and> (\<forall>c \<in> set (sanitize_filename x). c \<notin> set forbidden_chars \<and> \<not> py_isspace c)
   \<and> sanitize_filename (py '''') = py ''unknown''
   \<and> sanitize_filename (py ''...'') = py ''unknown''"
proof -
  have "sanitize_filename x \<noteq> []" by (simp add: sanitize_filename_def Let_def)
  moreover have "sanitize_filename (py '''') = py ''unknown''"
    by (simp add: sanitize_filename_def sub_forbidden_def py_strip_def)
  moreover have "sanitize_filename (py ''...'') = py ''unknown''"
    by (simp add: sanitize_eval)
  ultimately show ?thesis using sanitize_chars by blast
qed

theorem sanitize_safe_witness:
  "sanitize_filename (py ''Cool Wall/paper'') = py ''Cool_Wall_paper''
   \<and> 95 \<in> set (sanitize_filename (py ''Cool Wall/paper''))
   \<and> 95 \<notin> set forbidden_chars \<and> \<not> py_isspace 95
   \<and> sanitize_filename (py ''Cool Wall/paper'') \<noteq> []"
proof -
  have "95 \<in> set (sanitize_filename (py ''Cool Wall/paper''))"
    by (simp only: sanitize_cool) simp
  with sanitize_safe [of "py ''Cool Wall/paper''"] sanitize_cool show ?thesis
    by blast
qed

subsection \<open>String operations against the library's notions\<close>

lemma py_startswith_prefix: "py_startswith s p \<longleftrightarrow> prefix p s"
  by (induction s p rule: py_startswith.induct) auto

lemma py_in_sublist: "py_in sub s \<longleftrightarrow> sublist sub s"
  by (induction s) (auto simp: py_startswith_prefix sublist_Cons_right)

lemma py_endswith_suffix: "py_endswith s sfx \<longleftrightarrow> suffix sfx s"
proof
  assume "py_endswith s sfx"
  then have "drop (length s - length sfx) s = sfx" by (simp add: py_endswith_def)
  then show "suffix sfx s" by (metis suffix_drop)
next
  assume "suffix sfx s"
  then obtain zs where "s = zs @ sfx" by (auto simp: suffix_def)
  then show "py_endswith s sfx" by (simp add: py_endswith_def)
qed

lemma py_endswith_any_suffix: "py_endswith_any s sfxs \<longleftrightarrow> (\<exists>sfx \<in> set sfxs. suffix sfx s)"
  by (simp add: py_endswith_any_def list_ex_iff py_endswith_suffix)

lemma suffix_eval: "suffix sfx (s::py_str) \<longleftrightarrow> length sfx \<le> length s \<and> drop (length s - length sfx) s = sfx"
  using py_endswith_suffix [of s sfx] by (simp add: py_endswith_def)

subsection \<open>Evaluating concrete runs\<close>

lemmas fixture_eval =
  fixture_lib_def listing_xml_def detail_xml_def link_fields_def leaf_def xml_response_def
  file_response_def status_response_def serve_all_def serve_truncated_def serve_429_def
  fixture_extractall_def ascii_lower_def plain_url_path_def empty_world_def item_dir_def
  listing_url_def detail_url_def OCS_API_URL_def CATEGORY_ID_def OUTPUT_DIR_def
  DELAY_BETWEEN_REQUESTS_def MAX_RETRIES_def RETRY_DELAY_def

lemmas program_eval =
  main_def process_item_def process_download_def fetch_link_def target_filename_def
  url_filename_def is_source_archive_def source_exts_def extract_archive_def extract_try_def
  run_archive_library_def tar_suffixes_def download_file_def download_attempt_def
  write_chunks_def get_content_details_def detail_of_content_def collect_downloads_def
  download_entry_def get_all_content_items_def item_of_content_def raise_for_status_def
  session_get_def findtext_def find_desc_def findall_desc_def time_sleep_def mkdir_p_def
  path_exists_def basename_def py_endswith_any_def py_endswith_def new_events_def
  sanitize_eval str_int.simps Let_def upt_rec

subsection \<open>The extractor\<close>

lemma extract_archive_tar:
  assumes "py_endswith_any (path_str a) tar_suffixes"
  shows "extract_archive lib a d w =
           (Inr (snd (tar_extractall lib a d (fs w)) = None),
            w\<lparr>fs := fs w ++ map_of (fst (tar_extractall lib a d (fs w))),
              trace := trace w @ [TarExtract a d]\<rparr>)"
  using assms
  by (simp add: extract_archive_def extract_try_def run_archive_library_def Let_def
           split: option.splits)

lemma extract_archive_zip:
  assumes "\<not> py_endswith_any (path_str a) tar_suffixes" "py_endswith (path_str a) (py ''.zip'')"
  shows "extract_archive lib a d w =
           (Inr (snd (zip_extractall lib a d (fs w)) = None),
            w\<lparr>fs := fs w ++ map_of (fst (zip_extractall lib a d (fs w))),
              trace := trace w @ [ZipExtract a d]\<rparr>)"
  using assms
  by (simp add: extract_archive_def extract_try_def run_archive_library_def Let_def
           split: option.splits)

lemma extract_archive_other:
  assumes "\<not> py_endswith_any (path_str a) tar_suffixes" "\<not> py_endswith (path_str a) (py ''.zip'')"
  shows "extract_archive lib a d w = (Inr False, w)"
  using assms by (simp add: extract_archive_def extract_try_def)

lemma extract_archive_returns: "\<exists>b w'. extract_archive lib a d w = (Inr b, w')"
  by (auto simp: extract_archive_def split: prod.splits sum.splits option.splits)

text \<open>A string that ends in \<^verbatim>\<open>.zip\<close> ends in none of the tar suffixes: the last characters differ.\<close>

lemma suffix_last: "suffix sfx (s::py_str) \<Longrightarrow> sfx \<noteq> [] \<Longrightarrow> last s = last sfx"
  by (auto simp: suffix_def)

lemma zip_not_tar:
  assumes "suffix (py ''.zip'') s"
  shows "\<not> (\<exists>sfx \<in> set tar_suffixes. suffix sfx s)"
proof
  assume "\<exists>sfx \<in> set tar_suffixes. suffix sfx s"
  then obtain sfx where sfx: "sfx \<in> set tar_suffixes" "suffix sfx s" by blast
  then have "sfx \<noteq> []" "last sfx \<noteq> 112" by (auto simp: tar_suffixes_def)
  with suffix_last [OF sfx(2)] have "last s \<noteq> 112" by simp
  moreover from suffix_last [OF assms] have "last s = 112" by simp
  ultimately show False by simp
qed

text \<open>
  Claim C7. \<^verbatim>\<open>extract_archive\<close> never raises: it always returns a truth value. A path
  whose string ends in \<^verbatim>\<open>.tar.gz\<close>, \<^verbatim>\<open>.tgz\<close>, \<^verbatim>\<open>.tar.xz\<close> or \<^verbatim>\<open>.tar.bz2\<close> goes to the tar
  library, and only to it; one that ends in \<^verbatim>\<open>.zip\<close> to the zip library; in both cases
  the result is \<^verbatim>\<open>True\<close> exactly when the library raised nothing, so an exception of the
  extraction comes back as \<^verbatim>\<open>False\<close>. Any other path gives \<^verbatim>\<open>False\<close> and changes nothing.
\<close>

theorem extract_archive_dispatch:
  "(\<exists>b w'. extract_archive lib a d w = (Inr b, w'))
   \<and> ((\<exists>sfx \<in> set tar_suffixes. suffix sfx (path_str a)) \<longrightarrow>
        extractions_of (new_events w (snd (extract_archive lib a d w))) = [TarExtract a d]
        \<and> fst (extract_archive lib a d w) = Inr (snd (tar_extractall lib a d (fs w)) = None))
   \<and> (suffix (py ''.zip'') (path_str a) \<longrightarrow>
        extractions_of (new_events w (snd (extract_archive lib a d w))) = [ZipExtract a d]
        \<and> fst (extract_archive lib a d w) = Inr (snd (zip_extractall lib a d (fs w)) = None))
   \<and> (\<not> (\<exists>sfx \<in> set tar_suffixes. suffix sfx (path_str a)) \<and> \<not> suffix (py ''.zip'') (path_str a) \<longrightarrow>
        extract_archive lib a d w = (Inr False, w))"
proof (intro conjI impI)
  show "\<exists>b w'. extract_archive lib a d w = (Inr b, w')"
    by (rule extract_archive_returns)
next
  assume "\<exists>sfx \<in> set tar_suffixes. suffix sfx (path_str a)"
  then have tar: "py_endswith_any (path_str a) tar_suffixes"
    by (simp add: py_endswith_any_suffix)
  show "extractions_of (new_events w (snd (extract_archive lib a d w))) = [TarExtract a d]"
    by (simp add: extract_archive_tar [OF tar] new_events_def)
  show "fst (extract_archive lib a d w) = Inr (snd (tar_extractall lib a d (fs w)) = None)"
    by (simp add: extract_archive_tar [OF tar])
next
  assume "suffix (py ''.zip'') (path_str a)"
  then have zip: "\<not> py_endswith_any (path_str a) tar_suffixes" "py_endswith (path_str a) (py ''.zip'')"
    using zip_not_tar [of "path_str a"] by (simp_all add: py_endswith_any_suffix py_endswith_suffix)
  show "extractions_of (new_events w (snd (extract_archive lib a d w))) = [ZipExtract a d]"
    by (simp only: extract_archive_zip [OF zip] new_events_def) simp
  show "fst (extract_archive lib a d w) = Inr (snd (zip_extractall lib a d (fs w)) = None)"
    by (simp only: extract_archive_zip [OF zip] fst_conv)
next
  assume "\<not> (\<exists>sfx \<in> set tar_suffixes. suffix sfx (path_str a)) \<and> \<not> suffix (py ''.zip'') (path_str a)"
  then have other: "\<not> py_endswith_any (path_str a) tar_suffixes" "\<not> py_endswith (path_str a) (py ''.zip'')"
    by (simp_all add: py_endswith_any_suffix py_endswith_suffix)
  show "extract_archive lib a d w = (Inr False, w)"
    by (rule extract_archive_other [OF other])
qed

theorem extract_archive_dispatch_witness:
  "extractions_of (new_events empty_world
       (snd (extract_archive (fixture_lib [] [] serve_all) (item_dir @ [py ''plugin.tar.gz''])
          (item_dir @ [py ''src'']) empty_world)))
     = [TarExtract (item_dir @ [py ''plugin.tar.gz'']) (item_dir @ [py ''src''])]
   \<and> fst (extract_archive (fixture_lib [] [] serve_all) (item_dir @ [py ''plugin.tar.gz''])
          (item_dir @ [py ''src'']) empty_world) = Inr True
   \<and> extractions_of (new_events empty_world
       (snd (extract_archive (fixture_lib [] [] serve_all) (item_dir @ [py ''plugin.zip''])
          (item_dir @ [py ''src'']) empty_world)))
     = [ZipExtract (item_dir @ [py ''plugin.zip'']) (item_dir @ [py ''src''])]
   \<and> extract_archive (fixture_lib [] [] serve_all) (item_dir @ [py ''plugin.exe''])
          (item_dir @ [py ''src'']) empty_world = (Inr False, empty_world)"
proof -
  have tar: "\<exists>sfx \<in> set tar_suffixes. suffix sfx (path_str (item_dir @ [py ''plugin.tar.gz'']))"
    by (simp add: tar_suffixes_def suffix_eval item_dir_def OUTPUT_DIR_def)
  have zip: "suffix (py ''.zip'') (path_str (item_dir @ [py ''plugin.zip'']))"
    by (simp add: tar_suffixes_def suffix_eval item_dir_def OUTPUT_DIR_def)
  have exe: "\<not> (\<exists>sfx \<in> set tar_suffixes. suffix sfx (path_str (item_dir @ [py ''plugin.exe''])))
      \<and> \<not> suffix (py ''.zip'') (path_str (item_dir @ [py ''plugin.exe'']))"
    by (simp add: tar_suffixes_def suffix_eval item_dir_def OUTPUT_DIR_def)
  have ok: "snd (fixture_extractall a d m) = None" for a d m
    by (simp add: fixture_extractall_def)
  show ?thesis
    using tar zip exe
      extract_archive_dispatch [of "fixture_lib [] [] serve_all" "item_dir @ [py ''plugin.tar.gz'']"
        "item_dir @ [py ''src'']" empty_world]
      extract_archive_dispatch [of "fixture_lib [] [] serve_all" "item_dir @ [py ''plugin.zip'']"
        "item_dir @ [py ''src'']" empty_world]
      extract_archive_dispatch [of "fixture_lib [] [] serve_all" "item_dir @ [py ''plugin.exe'']"
        "item_dir @ [py ''src'']" empty_world]
    by (simp add: fixture_lib_def ok)
qed

subsection \<open>The downloader under rate limiting\<close>

lemma download_attempt_429:
  assumes "http_get lib (trace w) url = Inr r" "status_code r = 429"
  shows "download_attempt lib url p attempt w =
           (Inr Continue, w\<lparr>trace := trace w @ [Get url, Sleep (RETRY_DELAY * (attempt + 1))]\<rparr>)"
  using assms by (simp add: download_attempt_def session_get_def time_sleep_def)

lemma download_loop_429:
  assumes "\<forall>tr. \<exists>r. http_get lib tr url = Inr r \<and> status_code r = 429"
  shows "download_loop lib url p attempts w =
           (Inr False,
            w\<lparr>trace := trace w @ concat (map (\<lambda>a. [Get url, Sleep (RETRY_DELAY * (a + 1))]) attempts)\<rparr>)"
proof (induction attempts arbitrary: w)
  case Nil
  show ?case by simp
next
  case (Cons a attempts)
  from assms obtain r where "http_get lib (trace w) url = Inr r" "status_code r = 429"
    by blast
  then have "download_attempt lib url p a w =
      (Inr Continue, w\<lparr>trace := trace w @ [Get url, Sleep (RETRY_DELAY * (a + 1))]\<rparr>)"
    by (rule download_attempt_429)
  then show ?case by (simp add: Cons.IH)
qed

text \<open>
  Claim C1. When every answer to the URL has status 429, \<^verbatim>\<open>download_file\<close> makes exactly
  \<^verbatim>\<open>MAX_RETRIES\<close> requests and returns \<^verbatim>\<open>False\<close>; it sleeps 10, 20 and 30 seconds, in
  total \<^verbatim>\<open>RETRY_DELAY\<close> times \<open>1 + 2 + ... + MAX_RETRIES\<close>, and writes nothing.
\<close>

theorem download_rate_limited:
  assumes "\<forall>tr. \<exists>r. http_get lib tr url = Inr r \<and> status_code r = 429"
  shows "fst (download_file lib url p w) = Inr False
     \<and> requests_of (new_events w (snd (download_file lib url p w))) = replicate MAX_RETRIES url
     \<and> sleeps_of (new_events w (snd (download_file lib url p w))) = [10, 20, 30]
     \<and> sum_list (sleeps_of (new_events w (snd (download_file lib url p w))))
         = RETRY_DELAY * (\<Sum>i = 1..MAX_RETRIES. i)
     \<and> fs (snd (download_file lib url p w)) = fs w"
proof -
  have run: "download_file lib url p w =
      (Inr False,
       w\<lparr>trace := trace w @ [Get url, Sleep 10, Get url, Sleep 20, Get url, Sleep 30]\<rparr>)"
    by (simp only: download_file_def download_loop_429 [OF assms])
      (simp add: MAX_RETRIES_def RETRY_DELAY_def upt_rec)
  have total: "RETRY_DELAY * (\<Sum>i = 1..MAX_RETRIES. i) = 60"
    by (simp add: MAX_RETRIES_def RETRY_DELAY_def Sum_Icc_nat)
  have sleeps: "sleeps_of (new_events w (snd (download_file lib url p w))) = [10, 20, 30]"
    by (simp add: run new_events_def)
  have "requests_of (new_events w (snd (download_file lib url p w))) = replicate MAX_RETRIES url"
    by (simp add: run new_events_def MAX_RETRIES_def numeral_3_eq_3)
  moreover have "sum_list (sleeps_of (new_events w (snd (download_file lib url p w))))
      = RETRY_DELAY * (\<Sum>i = 1..MAX_RETRIES. i)"
    by (simp only: sleeps total) simp
  ultimately show ?thesis
    using sleeps by (simp add: run)
qed

theorem download_rate_limited_witness:
  "(\<forall>tr. \<exists>r. http_get (fixture_lib [] [] serve_429) tr (py ''https://x/files/cool.tar.gz'') = Inr r
        \<and> status_code r = 429)
   \<and> fst (download_file (fixture_lib [] [] serve_429) (py ''https://x/files/cool.tar.gz'')
        (item_dir @ [py ''cool.tar.gz'']) empty_world) = Inr False
   \<and> sleeps_of (new_events empty_world
        (snd (download_file (fixture_lib [] [] serve_429) (py ''https://x/files/cool.tar.gz'')
           (item_dir @ [py ''cool.tar.gz'']) empty_world))) = [10, 20, 30]"
proof -
  have h: "\<forall>tr. \<exists>r. http_get (fixture_lib [] [] serve_429) tr (py ''https://x/files/cool.tar.gz'') = Inr r
        \<and> status_code r = 429"
    by (simp add: fixture_lib_def serve_429_def status_response_def listing_url_def detail_url_def
          OCS_API_URL_def)
  from download_rate_limited [OF h, of "item_dir @ [py ''cool.tar.gz'']" empty_world] h
  show ?thesis by blast
qed

subsection \<open>The source-archive test\<close>

lemma is_source_archive_sublist:
  "is_source_archive lib filename \<longleftrightarrow> (\<exists>ext \<in> set source_exts. sublist ext (str_lower lib filename))"
  by (simp add: is_source_archive_def list_ex_iff py_in_sublist)

text \<open>
  Claim C10. The orchestrator takes a file name for a source archive exactly when one
  of \<^verbatim>\<open>.tar.gz\<close>, \<^verbatim>\<open>.tar.xz\<close>, \<^verbatim>\<open>.tgz\<close>, \<^verbatim>\<open>.zip\<close>, \<^verbatim>\<open>.tar.bz2\<close> occurs somewhere in the
  lowercased name, while the extractor returns \<^verbatim>\<open>False\<close> and does nothing for a path that
  does not end in a suffix it knows. So \<^verbatim>\<open>notes.zip.txt\<close> is taken for a source archive
  and downloaded (the run below counts one download and stores the file), and no
  extraction takes place: no archive library is called and no \<^verbatim>\<open>src\<close> directory appears.
\<close>

theorem source_archive_test_substring:
  "(is_source_archive lib filename
      \<longleftrightarrow> (\<exists>ext \<in> set source_exts. sublist ext (str_lower lib filename)))
   \<and> ((\<forall>sfx \<in> set (tar_suffixes @ [py ''.zip'']). \<not> suffix sfx (path_str a))
        \<longrightarrow> extract_archive lib a d w = (Inr False, w))
   \<and> is_source_archive (fixture_lib (py ''42'') [py ''https://x/files/notes.zip.txt''] serve_all)
        (py ''notes.zip.txt'')
   \<and> fst (main (fixture_lib (py ''42'') [py ''https://x/files/notes.zip.txt''] serve_all) empty_world)
        = Inr \<lparr>downloaded_count = 1, failed_count = 0, skipped_count = 0\<rparr>
   \<and> fs (snd (main (fixture_lib (py ''42'') [py ''https://x/files/notes.zip.txt''] serve_all)
        empty_world)) (item_dir @ [py ''notes.zip.txt'']) = Some (File [1, 2, 3])
   \<and> fs (snd (main (fixture_lib (py ''42'') [py ''https://x/files/notes.zip.txt''] serve_all)
        empty_world)) (item_dir @ [py ''src'']) = None
   \<and> extractions_of (trace (snd (main
        (fixture_lib (py ''42'') [py ''https://x/files/notes.zip.txt''] serve_all) empty_world))) = []"
proof (intro conjI impI)
  show "is_source_archive lib filename
      \<longleftrightarrow> (\<exists>ext \<in> set source_exts. sublist ext (str_lower lib filename))"
    by (rule is_source_archive_sublist)
next
  assume "\<forall>sfx \<in> set (tar_suffixes @ [py ''.zip'']). \<not> suffix sfx (path_str a)"
  then have "\<not> py_endswith_any (path_str a) tar_suffixes" "\<not> py_endswith (path_str a) (py ''.zip'')"
    by (simp_all add: py_endswith_any_suffix py_endswith_suffix)
  then show "extract_archive lib a d w = (Inr False, w)"
    by (rule extract_archive_other)
qed (simp_all add: fixture_eval program_eval)

theorem source_archive_test_substring_witness:
  "py ''.zip'' \<in> set source_exts
   \<and> sublist (py ''.zip'') (ascii_lower (py ''notes.zip.txt''))
   \<and> is_source_archive (fixture_lib (py ''42'') [] serve_all) (py ''notes.zip.txt'')
   \<and> extract_archive (fixture_lib (py ''42'') [] serve_all) (item_dir @ [py ''notes.zip.txt''])
        (item_dir @ [py ''src'']) empty_world = (Inr False, empty_world)"
proof -
  have ext: "py ''.zip'' \<in> set source_exts" by (simp add: source_exts_def)
  have sub: "sublist (py ''.zip'') (ascii_lower (py ''notes.zip.txt''))"
    by (simp add: py_in_sublist [symmetric] ascii_lower_def)
  have nosfx: "\<forall>sfx \<in> set (tar_suffixes @ [py ''.zip'']).
      \<not> suffix sfx (path_str (item_dir @ [py ''notes.zip.txt'']))"
    by (simp add: tar_suffixes_def suffix_eval item_dir_def OUTPUT_DIR_def)
  have low: "str_lower (fixture_lib (py ''42'') [] serve_all) = ascii_lower"
    by (simp add: fixture_lib_def)
  from source_archive_test_substring [of "fixture_lib (py ''42'') [] serve_all" "py ''notes.zip.txt''"
      "item_dir @ [py ''notes.zip.txt'']" "item_dir @ [py ''src'']" empty_world]
    ext sub nosfx low
  show ?thesis by auto
qed

subsection \<open>What a link adds to the trace\<close>

lemma download_attempt_first_event:
  "\<exists>evs. trace (snd (download_attempt lib url p a w)) = trace w @ Get url # evs"
  by (auto simp: download_attempt_def session_get_def time_sleep_def write_chunks_def
        split: sum.splits option.splits)

lemma download_loop_trace:
  "\<exists>evs. trace (snd (download_loop lib url p attempts w)) = trace w @ evs"
proof (induction attempts arbitrary: w)
  case Nil
  show ?case by simp
next
  case (Cons a attempts)
  obtain res w1 where att: "download_attempt lib url p a w = (res, w1)"
    by (cases "download_attempt lib url p a w")
  from download_attempt_first_event [of lib url p a w] att
  obtain evs where w1: "trace w1 = trace w @ Get url # evs" by auto
  from Cons.IH [of w1] obtain evs1 where
    l1: "trace (snd (download_loop lib url p attempts w1)) = trace w1 @ evs1" by blast
  from Cons.IH [of "time_sleep (RETRY_DELAY * (a + 1)) w1"] obtain evs2 where
    l2: "trace (snd (download_loop lib url p attempts (time_sleep (RETRY_DELAY * (a + 1)) w1)))
          = trace w1 @ Sleep (RETRY_DELAY * (a + 1)) # evs2"
    by (auto simp: time_sleep_def)
  show ?case
    using att w1 l1 l2
    by (auto split: sum.splits attempt_result.splits)
qed

lemma download_loop_first_event:
  assumes "attempts \<noteq> []"
  shows "\<exists>evs. trace (snd (download_loop lib url p attempts w)) = trace w @ Get url # evs"
proof -
  from assms obtain a rest where attempts: "attempts = a # rest" by (cases attempts) auto
  obtain res w1 where att: "download_attempt lib url p a w = (res, w1)"
    by (cases "download_attempt lib url p a w")
  from download_attempt_first_event [of lib url p a w] att
  obtain evs where w1: "trace w1 = trace w @ Get url # evs" by auto
  from download_loop_trace [of lib url p rest w1] obtain evs1 where
    l1: "trace (snd (download_loop lib url p rest w1)) = trace w1 @ evs1" by blast
  from download_loop_trace [of lib url p rest "time_sleep (RETRY_DELAY * (a + 1)) w1"] obtain evs2 where
    l2: "trace (snd (download_loop lib url p rest (time_sleep (RETRY_DELAY * (a + 1)) w1)))
          = trace w1 @ Sleep (RETRY_DELAY * (a + 1)) # evs2"
    by (auto simp: time_sleep_def)
  show ?thesis
    unfolding attempts using att w1 l1 l2
    by (auto split: sum.splits attempt_result.splits)
qed

lemma download_file_first_event:
  "\<exists>evs. trace (snd (download_file lib url p w)) = trace w @ Get url # evs"
  unfolding download_file_def
  by (rule download_loop_first_event) (simp add: MAX_RETRIES_def)

lemma extract_archive_trace:
  "\<exists>evs. trace (snd (extract_archive lib a d w)) = trace w @ evs"
  by (auto simp: extract_archive_def extract_try_def run_archive_library_def Let_def
        split: option.splits)

lemma fetch_link_attempt:
  assumes "\<not> path_exists w (pd @ [filename])"
  shows "\<exists>evs. trace (snd (fetch_link lib url pd filename c w))
           = trace w @ Sleep DELAY_BETWEEN_REQUESTS # Get url # evs"
proof -
  define w0 where "w0 = time_sleep DELAY_BETWEEN_REQUESTS w"
  obtain res w1 where dl: "download_file lib url (pd @ [filename]) w0 = (res, w1)"
    by (cases "download_file lib url (pd @ [filename]) w0")
  from download_file_first_event [of lib url "pd @ [filename]" w0] dl
  obtain evs where w1: "trace w1 = trace w @ Sleep DELAY_BETWEEN_REQUESTS # Get url # evs"
    by (auto simp: w0_def time_sleep_def)
  from extract_archive_trace [of lib "pd @ [filename]" "pd @ [py ''src'']" w1]
  obtain evs1 where
    ex: "trace (snd (extract_archive lib (pd @ [filename]) (pd @ [py ''src'']) w1)) = trace w1 @ evs1"
    by blast
  show ?thesis
    using assms dl w1 ex
    by (auto simp: fetch_link_def Let_def w0_def [symmetric]
          split: sum.splits bool.splits prod.splits)
qed

lemma fetch_link_exists:
  assumes "path_exists w (pd @ [filename])"
  shows "fetch_link lib url pd filename c w = (Inr (c\<lparr>skipped_count := skipped_count c + 1\<rparr>), w)"
  using assms by (simp add: fetch_link_def)

lemma fetch_link_counts:
  assumes "fetch_link lib url pd filename c w = (Inr c', w')"
  shows "c' = c\<lparr>downloaded_count := downloaded_count c + 1\<rparr>
       \<or> c' = c\<lparr>skipped_count := skipped_count c + 1\<rparr>
       \<or> c' = c\<lparr>failed_count := failed_count c + 1\<rparr>"
  using assms
  by (auto simp: fetch_link_def Let_def split: if_splits prod.splits sum.splits bool.splits)

subsection \<open>Links with no archive extension\<close>

text \<open>
  Claim C8 as stated fails. The URL \<^verbatim>\<open>https://x/Download/42\<close> does not contain the
  literal \<^verbatim>\<open>download\<close>, and its basename \<^verbatim>\<open>42\<close> carries no extension, yet the link is not
  skipped: the test is made on the lowercased URL, so the file is requested and stored
  as \<^verbatim>\<open>Cool_Wall_paper.tar.gz\<close>.
\<close>

theorem synthesized_name_counterexample:
  "\<not> sublist (py ''download'') (py ''https://x/Download/42'')
   \<and> \<not> is_source_archive (fixture_lib (py ''42'') [py ''https://x/Download/42''] serve_all)
        (url_filename (fixture_lib (py ''42'') [py ''https://x/Download/42''] serve_all)
           \<lparr>dl_url = py ''https://x/Download/42'', dl_name = py ''file1''\<rparr>)
   \<and> fst (process_download (fixture_lib (py ''42'') [py ''https://x/Download/42''] serve_all)
        (py ''Cool_Wall_paper'') item_dir
        \<lparr>dl_url = py ''https://x/Download/42'', dl_name = py ''file1''\<rparr>
        \<lparr>downloaded_count = 0, failed_count = 0, skipped_count = 0\<rparr> empty_world)
       = Inr \<lparr>downloaded_count = 1, failed_count = 0, skipped_count = 0\<rparr>
   \<and> requests_of (trace (snd (process_download
        (fixture_lib (py ''42'') [py ''https://x/Download/42''] serve_all)
        (py ''Cool_Wall_paper'') item_dir
        \<lparr>dl_url = py ''https://x/Download/42'', dl_name = py ''file1''\<rparr>
        \<lparr>downloaded_count = 0, failed_count = 0, skipped_count = 0\<rparr> empty_world)))
       = [py ''https://x/Download/42'']
   \<and> fs (snd (process_download (fixture_lib (py ''42'') [py ''https://x/Download/42''] serve_all)
        (py ''Cool_Wall_paper'') item_dir
        \<lparr>dl_url = py ''https://x/Download/42'', dl_name = py ''file1''\<rparr>
        \<lparr>downloaded_count = 0, failed_count = 0, skipped_count = 0\<rparr> empty_world))
        (item_dir @ [py ''Cool_Wall_paper.tar.gz'']) = Some (File [1, 2, 3])"
proof -
  have "\<not> sublist (py ''download'') (py ''https://x/Download/42'')"
    by (simp add: py_in_sublist [symmetric])
  then show ?thesis
    by (simp add: fixture_eval program_eval)
qed

text \<open>
  Claim C8, amended. For a link with a URL whose file name (basename of the URL path,
  else the link's name) contains no archive extension: if \<^verbatim>\<open>download\<close> occurs in the
  lowercased URL, the name is \<^verbatim>\<open>{plugin_name}.tar.gz\<close>; the link is then counted as
  skipped, with nothing else done, when that file exists, and otherwise the program
  sleeps and requests the URL. If \<^verbatim>\<open>download\<close> does not occur in the lowercased URL the
  link is passed over: no request, no counter, nothing written.
\<close>

theorem link_without_extension:
  assumes "dl_url dl \<noteq> []" "\<not> is_source_archive lib (url_filename lib dl)"
  shows "(sublist (py ''download'') (str_lower lib (dl_url dl)) \<longrightarrow>
            target_filename lib pn dl = Some (pn @ py ''.tar.gz'')
          \<and> (path_exists w (pd @ [pn @ py ''.tar.gz'']) \<longrightarrow>
               process_download lib pn pd dl c w
                 = (Inr (c\<lparr>skipped_count := skipped_count c + 1\<rparr>), w))
          \<and> (\<not> path_exists w (pd @ [pn @ py ''.tar.gz'']) \<longrightarrow>
               take 2 (new_events w (snd (process_download lib pn pd dl c w)))
                 = [Sleep DELAY_BETWEEN_REQUESTS, Get (dl_url dl)]
               \<and> process_download lib pn pd dl c w
                   = fetch_link lib (dl_url dl) pd (pn @ py ''.tar.gz'') c w))
       \<and> (\<not> sublist (py ''download'') (str_lower lib (dl_url dl)) \<longrightarrow>
            target_filename lib pn dl = None
          \<and> process_download lib pn pd dl c w = (Inr c, w))"
proof (intro conjI impI)
  assume "\<not> sublist (py ''download'') (str_lower lib (dl_url dl))"
  with assms show none: "target_filename lib pn dl = None"
    by (simp add: target_filename_def py_in_sublist)
  with assms show "process_download lib pn pd dl c w = (Inr c, w)"
    by (simp add: process_download_def)
next
  assume d: "sublist (py ''download'') (str_lower lib (dl_url dl))"
  with assms show name: "target_filename lib pn dl = Some (pn @ py ''.tar.gz'')"
    by (simp add: target_filename_def py_in_sublist)
  with assms have run: "process_download lib pn pd dl c w
      = fetch_link lib (dl_url dl) pd (pn @ py ''.tar.gz'') c w"
    by (simp add: process_download_def)
  {
    assume "path_exists w (pd @ [pn @ py ''.tar.gz''])"
    then show "process_download lib pn pd dl c w
        = (Inr (c\<lparr>skipped_count := skipped_count c + 1\<rparr>), w)"
      unfolding run by (rule fetch_link_exists)
  }
  {
    assume "\<not> path_exists w (pd @ [pn @ py ''.tar.gz''])"
    from fetch_link_attempt [OF this, of lib "dl_url dl" c]
    show "take 2 (new_events w (snd (process_download lib pn pd dl c w)))
        = [Sleep DELAY_BETWEEN_REQUESTS, Get (dl_url dl)]"
      unfolding run by (auto simp: new_events_def)
    show "process_download lib pn pd dl c w
        = fetch_link lib (dl_url dl) pd (pn @ py ''.tar.gz'') c w"
      by (rule run)
  }
qed

theorem link_without_extension_witness:
  "dl_url \<lparr>dl_url = py ''https://x/download/1'', dl_name = py ''file1''\<rparr> \<noteq> []
   \<and> \<not> is_source_archive (fixture_lib (py ''42'') [] serve_all)
        (url_filename (fixture_lib (py ''42'') [] serve_all)
           \<lparr>dl_url = py ''https://x/download/1'', dl_name = py ''file1''\<rparr>)
   \<and> sublist (py ''download'') (ascii_lower (py ''https://x/download/1''))
   \<and> target_filename (fixture_lib (py ''42'') [] serve_all) (py ''Cool_Wall_paper'')
        \<lparr>dl_url = py ''https://x/download/1'', dl_name = py ''file1''\<rparr>
       = Some (py ''Cool_Wall_paper.tar.gz'')
   \<and> take 2 (new_events empty_world
        (snd (process_download (fixture_lib (py ''42'') [] serve_all) (py ''Cool_Wall_paper'')
           item_dir \<lparr>dl_url = py ''https://x/download/1'', dl_name = py ''file1''\<rparr>
           \<lparr>downloaded_count = 0, failed_count = 0, skipped_count = 0\<rparr> empty_world)))
       = [Sleep DELAY_BETWEEN_REQUESTS, Get (py ''https://x/download/1'')]
   \<and> process_download (fixture_lib (py ''42'') [] serve_all) (py ''Cool_Wall_paper'') item_dir
        \<lparr>dl_url = py ''https://x/files/readme.txt'', dl_name = py ''file1''\<rparr>
        \<lparr>downloaded_count = 0, failed_count = 0, skipped_count = 0\<rparr> empty_world
       = (Inr \<lparr>downloaded_count = 0, failed_count = 0, skipped_count = 0\<rparr>, empty_world)"
proof -
  define lib where "lib = fixture_lib (py ''42'') [] serve_all"
  define dl where "dl = \<lparr>dl_url = py ''https://x/download/1'', dl_name = py ''file1''\<rparr>"
  define readme where "readme = \<lparr>dl_url = py ''https://x/files/readme.txt'', dl_name = py ''file1''\<rparr>"
  define zero where "zero = \<lparr>downloaded_count = 0, failed_count = 0, skipped_count = 0\<rparr>"
  have low: "str_lower lib = ascii_lower" by (simp add: lib_def fixture_lib_def)
  have url: "dl_url dl \<noteq> []" "dl_url dl = py ''https://x/download/1''" by (simp_all add: dl_def)
  have noext: "\<not> is_source_archive lib (url_filename lib dl)"
    unfolding lib_def dl_def by (simp add: fixture_eval program_eval)
  have sub: "sublist (py ''download'') (str_lower lib (dl_url dl))"
    unfolding low dl_def by (simp add: py_in_sublist [symmetric] ascii_lower_def)
  have fresh: "\<not> path_exists empty_world (item_dir @ [py ''Cool_Wall_paper'' @ py ''.tar.gz''])"
    by (simp add: path_exists_def empty_world_def)
  have url2: "dl_url readme \<noteq> []" by (simp add: readme_def)
  have noext2: "\<not> is_source_archive lib (url_filename lib readme)"
    unfolding lib_def readme_def by (simp add: fixture_eval program_eval)
  have nosub2: "\<not> sublist (py ''download'') (str_lower lib (dl_url readme))"
    unfolding low readme_def by (simp add: py_in_sublist [symmetric] ascii_lower_def)
  note a = link_without_extension [OF url(1) noext, of "py ''Cool_Wall_paper''" empty_world item_dir zero]
  note b = link_without_extension [OF url2 noext2, of "py ''Cool_Wall_paper''" empty_world item_dir zero]
  from a sub fresh have
    "target_filename lib (py ''Cool_Wall_paper'') dl = Some (py ''Cool_Wall_paper'' @ py ''.tar.gz'')"
    "take 2 (new_events empty_world
        (snd (process_download lib (py ''Cool_Wall_paper'') item_dir dl zero empty_world)))
       = [Sleep DELAY_BETWEEN_REQUESTS, Get (dl_url dl)]"
    by blast+
  moreover from b nosub2 have
    "process_download lib (py ''Cool_Wall_paper'') item_dir readme zero empty_world
       = (Inr zero, empty_world)"
    by blast
  ultimately show ?thesis
    using url noext sub
    unfolding low
    unfolding lib_def dl_def readme_def zero_def
    by simp
qed

subsection \<open>The id of a detail\<close>

text \<open>
  Claim C9 as stated fails. The detail fetcher reads the \<^verbatim>\<open>id\<close> of its result from the
  answer, not from its argument: asked for item 42, a server that answers with a
  document whose id is 7 gets the id 7 into the detail, and the orchestrator downloads
  that document's links into the directory of item 42.
\<close>

theorem detail_id_counterexample:
  "fst (get_content_details (fixture_lib (py ''7'') [py ''https://x/files/cool.tar.gz''] serve_all)
         (py ''42'') empty_world)
     = Inr (Some \<lparr>detail_id = py ''7'', detail_name = py ''Cool Wall/paper'', detail_version = [],
              detail_personid = [], detail_description = [],
              downloads = [\<lparr>dl_url = py ''https://x/files/cool.tar.gz'', dl_name = py ''file1''\<rparr>]\<rparr>)
   \<and> py ''7'' \<noteq> py ''42''
   \<and> fst (main (fixture_lib (py ''7'') [py ''https://x/files/cool.tar.gz''] serve_all) empty_world)
       = Inr \<lparr>downloaded_count = 1, failed_count = 0, skipped_count = 0\<rparr>"
  by (simp add: fixture_eval program_eval)

text \<open>
  Claim C9, amended. A detail fetch that returns a detail has made exactly one request,
  to the detail URL of the id it was given, and has written nothing; the \<^verbatim>\<open>id\<close> of the
  detail is the text of the \<^verbatim>\<open>id\<close> child of the first \<^verbatim>\<open>content\<close> element of the answer
  (the empty string when there is none), and its downloads are that element's links.
  It equals the id asked for when the server echoes it.
\<close>

theorem detail_id_from_answer:
  assumes "get_content_details lib content_id w = (Inr (Some d), w')"
  shows "requests_of (new_events w w') = [detail_url content_id]
     \<and> fs w' = fs w
     \<and> (\<exists>response root content.
           http_get lib (trace w) (detail_url content_id) = Inr response
           \<and> body_xml response = Some root
           \<and> find_desc (py ''content'') root = Some content
           \<and> detail_id d = findtext content (py ''id'') []
           \<and> downloads d = collect_downloads content)"
  using assms
  by (auto simp: get_content_details_def session_get_def new_events_def detail_of_content_def
        split: sum.splits option.splits)

theorem detail_id_from_answer_witness:
  "fst (get_content_details (fixture_lib (py ''42'') [] serve_all) (py ''42'') empty_world)
     = Inr (Some \<lparr>detail_id = py ''42'', detail_name = py ''Cool Wall/paper'', detail_version = [],
              detail_personid = [], detail_description = [], downloads = []\<rparr>)
   \<and> requests_of (new_events empty_world
        (snd (get_content_details (fixture_lib (py ''42'') [] serve_all) (py ''42'') empty_world)))
       = [detail_url (py ''42'')]"
proof -
  have run: "fst (get_content_details (fixture_lib (py ''42'') [] serve_all) (py ''42'') empty_world)
     = Inr (Some \<lparr>detail_id = py ''42'', detail_name = py ''Cool Wall/paper'', detail_version = [],
              detail_personid = [], detail_description = [], downloads = []\<rparr>)"
    by (simp add: fixture_eval program_eval)
  then have "get_content_details (fixture_lib (py ''42'') [] serve_all) (py ''42'') empty_world
     = (Inr (Some \<lparr>detail_id = py ''42'', detail_name = py ''Cool Wall/paper'', detail_version = [],
              detail_personid = [], detail_description = [], downloads = []\<rparr>),
        snd (get_content_details (fixture_lib (py ''42'') [] serve_all) (py ''42'') empty_world))"
    by (metis prod.collapse)
  from detail_id_from_answer [OF this] run show ?thesis by blast
qed

subsection \<open>The counters\<close>

text \<open>
  Claim C4 as stated fails. A link passed over as not being source code leaves all three
  counters as they are: the run over a catalogue whose only link is
  \<^verbatim>\<open>https://x/files/readme.txt\<close> ends with all counters at zero. The skipped counter
  counts files that exist already, nothing else.
\<close>

theorem counters_counterexample:
  "process_download (fixture_lib (py ''42'') [py ''https://x/files/readme.txt''] serve_all)
      (py ''Cool_Wall_paper'') item_dir
      \<lparr>dl_url = py ''https://x/files/readme.txt'', dl_name = py ''file1''\<rparr>
      \<lparr>downloaded_count = 0, failed_count = 0, skipped_count = 0\<rparr> empty_world
     = (Inr \<lparr>downloaded_count = 0, failed_count = 0, skipped_count = 0\<rparr>, empty_world)
   \<and> fst (main (fixture_lib (py ''42'') [py ''https://x/files/readme.txt''] serve_all) empty_world)
       = Inr \<lparr>downloaded_count = 0, failed_count = 0, skipped_count = 0\<rparr>"
  by (simp add: fixture_eval program_eval)

text \<open>
  Claim C4, amended. A link that gets a target file name (its name contains an archive
  extension, or it gets the synthesized name) adds one to exactly one of the three
  counters and leaves the other two; a link with an empty URL or with no target file
  name changes no counter and nothing else; an item whose detail is absent or has no
  links adds one to the failed counter.
\<close>

theorem counters_step:
  "(process_download lib pn pd dl c w = (Inr c', w') \<longrightarrow>
      (if dl_url dl = [] \<or> target_filename lib pn dl = None then c' = c \<and> w' = w
       else c' = c\<lparr>downloaded_count := downloaded_count c + 1\<rparr>
          \<or> c' = c\<lparr>skipped_count := skipped_count c + 1\<rparr>
          \<or> c' = c\<lparr>failed_count := failed_count c + 1\<rparr>))
   \<and> (get_content_details lib (item_id item) (time_sleep DELAY_BETWEEN_REQUESTS w) = (Inr r, w1)
        \<and> (r = None \<or> (\<exists>d. r = Some d \<and> downloads d = []))
      \<longrightarrow> process_item lib item c w = (Inr (c\<lparr>failed_count := failed_count c + 1\<rparr>), w1))"
proof (intro conjI impI)
  assume run: "process_download lib pn pd dl c w = (Inr c', w')"
  show "if dl_url dl = [] \<or> target_filename lib pn dl = None then c' = c \<and> w' = w
       else c' = c\<lparr>downloaded_count := downloaded_count c + 1\<rparr>
          \<or> c' = c\<lparr>skipped_count := skipped_count c + 1\<rparr>
          \<or> c' = c\<lparr>failed_count := failed_count c + 1\<rparr>"
  proof (cases "dl_url dl = [] \<or> target_filename lib pn dl = None")
    case True
    with run show ?thesis by (auto simp: process_download_def split: if_splits)
  next
    case False
    then obtain filename where "target_filename lib pn dl = Some filename" "dl_url dl \<noteq> []"
      by auto
    with run have "fetch_link lib (dl_url dl) pd filename c w = (Inr c', w')"
      by (simp add: process_download_def)
    from fetch_link_counts [OF this] False show ?thesis by auto
  qed
next
  assume "get_content_details lib (item_id item) (time_sleep DELAY_BETWEEN_REQUESTS w) = (Inr r, w1)
        \<and> (r = None \<or> (\<exists>d. r = Some d \<and> downloads d = []))"
  then show "process_item lib item c w = (Inr (c\<lparr>failed_count := failed_count c + 1\<rparr>), w1)"
    by (auto simp: process_item_def)
qed

theorem counters_step_witness:
  "target_filename (fixture_lib (py ''42'') [] serve_all) (py ''Cool_Wall_paper'')
      \<lparr>dl_url = py ''https://x/files/cool.tar.gz'', dl_name = py ''file1''\<rparr>
     = Some (py ''cool.tar.gz'')
   \<and> fst (process_download (fixture_lib (py ''42'') [] serve_all) (py ''Cool_Wall_paper'') item_dir
        \<lparr>dl_url = py ''https://x/files/cool.tar.gz'', dl_name = py ''file1''\<rparr>
        \<lparr>downloaded_count = 0, failed_count = 0, skipped_count = 0\<rparr> empty_world)
       = Inr \<lparr>downloaded_count = 1, failed_count = 0, skipped_count = 0\<rparr>
   \<and> fst (process_item (fixture_lib (py ''42'') [] serve_all)
        \<lparr>item_id = py ''42'', item_name = py ''Cool Wall/paper'', item_version = [],
          item_personid = [], item_description = [], item_downloadlink1 = []\<rparr>
        \<lparr>downloaded_count = 0, failed_count = 0, skipped_count = 0\<rparr> empty_world)
       = Inr \<lparr>downloaded_count = 0, failed_count = 1, skipped_count = 0\<rparr>"
proof -
  define lib where "lib = fixture_lib (py ''42'') [] serve_all"
  define dl where "dl = \<lparr>dl_url = py ''https://x/files/cool.tar.gz'', dl_name = py ''file1''\<rparr>"
  define item where "item = \<lparr>item_id = py ''42'', item_name = py ''Cool Wall/paper'',
      item_version = [], item_personid = [], item_description = [], item_downloadlink1 = []\<rparr>"
  define zero where "zero = \<lparr>downloaded_count = 0, failed_count = 0, skipped_count = 0\<rparr>"
  define w1 where "w1 = snd (get_content_details lib (item_id item)
      (time_sleep DELAY_BETWEEN_REQUESTS empty_world))"
  define w2 where "w2 = snd (process_download lib (py ''Cool_Wall_paper'') item_dir dl zero empty_world)"
  have name: "target_filename lib (py ''Cool_Wall_paper'') dl = Some (py ''cool.tar.gz'')"
    unfolding lib_def dl_def by (simp add: fixture_eval program_eval)
  have link: "fst (process_download lib (py ''Cool_Wall_paper'') item_dir dl zero empty_world)
      = Inr \<lparr>downloaded_count = 1, failed_count = 0, skipped_count = 0\<rparr>"
    unfolding lib_def dl_def zero_def by (simp add: fixture_eval program_eval)
  then have run: "process_download lib (py ''Cool_Wall_paper'') item_dir dl zero empty_world
      = (Inr \<lparr>downloaded_count = 1, failed_count = 0, skipped_count = 0\<rparr>, w2)"
    unfolding w2_def by (metis prod.collapse)
  have "fst (get_content_details lib (item_id item) (time_sleep DELAY_BETWEEN_REQUESTS empty_world))
      = Inr (Some \<lparr>detail_id = py ''42'', detail_name = py ''Cool Wall/paper'', detail_version = [],
              detail_personid = [], detail_description = [], downloads = []\<rparr>)"
    unfolding lib_def item_def by (simp add: fixture_eval program_eval)
  then have det: "get_content_details lib (item_id item) (time_sleep DELAY_BETWEEN_REQUESTS empty_world)
      = (Inr (Some \<lparr>detail_id = py ''42'', detail_name = py ''Cool Wall/paper'', detail_version = [],
              detail_personid = [], detail_description = [], downloads = []\<rparr>), w1)"
    unfolding w1_def by (metis prod.collapse)
  note step = counters_step [of lib "py ''Cool_Wall_paper''" item_dir dl zero empty_world
      "\<lparr>downloaded_count = 1, failed_count = 0, skipped_count = 0\<rparr>" w2 item
      "Some \<lparr>detail_id = py ''42'', detail_name = py ''Cool Wall/paper'', detail_version = [],
              detail_personid = [], detail_description = [], downloads = []\<rparr>" w1]
  from step det have "process_item lib item zero empty_world
      = (Inr (zero\<lparr>failed_count := failed_count zero + 1\<rparr>), w1)"
    by simp
  then have "fst (process_item lib item zero empty_world)
      = Inr \<lparr>downloaded_count = 0, failed_count = 1, skipped_count = 0\<rparr>"
    by (simp add: zero_def)
  with name link show ?thesis
    unfolding lib_def dl_def item_def zero_def by simp
qed

subsection \<open>What a failed download leaves behind\<close>

text \<open>
  Claim C2 as stated fails. When the stream of every attempt breaks after its first
  chunk, \<^verbatim>\<open>download_file\<close> returns \<^verbatim>\<open>False\<close> and the destination, which did not exist,
  holds the chunk that was written: nothing removes it. The run counts the link as
  failed; the next run finds the file, counts the link as skipped and does not request
  it again.
\<close>

theorem partial_file_counterexample:
  "fs empty_world (item_dir @ [py ''cool.tar.gz'']) = None
   \<and> fst (download_file (fixture_lib (py ''42'') [py ''https://x/files/cool.tar.gz''] serve_truncated)
        (py ''https://x/files/cool.tar.gz'') (item_dir @ [py ''cool.tar.gz'']) empty_world)
       = Inr False
   \<and> fs (snd (download_file
        (fixture_lib (py ''42'') [py ''https://x/files/cool.tar.gz''] serve_truncated)
        (py ''https://x/files/cool.tar.gz'') (item_dir @ [py ''cool.tar.gz'']) empty_world))
        (item_dir @ [py ''cool.tar.gz'']) = Some (File [1, 2])
   \<and> fst (main (fixture_lib (py ''42'') [py ''https://x/files/cool.tar.gz''] serve_truncated)
        empty_world)
       = Inr \<lparr>downloaded_count = 0, failed_count = 1, skipped_count = 0\<rparr>
   \<and> fst (main (fixture_lib (py ''42'') [py ''https://x/files/cool.tar.gz''] serve_truncated)
        (snd (main (fixture_lib (py ''42'') [py ''https://x/files/cool.tar.gz''] serve_truncated)
           empty_world)))
       = Inr \<lparr>downloaded_count = 0, failed_count = 0, skipped_count = 1\<rparr>"
  by (simp add: fixture_eval program_eval)

text \<open>One pass of the loop either leaves the filesystem alone or writes the destination.\<close>

lemma download_attempt_cases:
  assumes "download_attempt lib url p a w = (res, w1)"
  shows "(fs w1 = fs w \<and> res \<noteq> Inr ReturnTrue)
       \<or> (\<exists>r. http_get lib (trace w) url = Inr r \<and> status_code r \<noteq> 429
              \<and> raise_for_status r = None
              \<and> fs w1 p = Some (File (concat (chunks r)))
              \<and> (case stream_error r of None \<Rightarrow> res = Inr ReturnTrue | Some e \<Rightarrow> res = Inl e))"
  using assms
  by (auto simp: download_attempt_def session_get_def time_sleep_def write_chunks_def
        split: sum.splits option.splits if_splits)

lemma partial_at_fs: "partial_at lib url p w1 \<Longrightarrow> fs w' = fs w1 \<Longrightarrow> partial_at lib url p w'"
  by (simp add: partial_at_def)

lemma download_loop_failure:
  assumes "download_loop lib url p attempts w = (Inr False, w')"
  shows "fs w' = fs w \<or> partial_at lib url p w'"
  using assms
proof (induction attempts arbitrary: w)
  case Nil
  then show ?case by simp
next
  case (Cons a attempts)
  obtain res w1 where att: "download_attempt lib url p a w = (res, w1)"
    by (cases "download_attempt lib url p a w")
  note cases = download_attempt_cases [OF att]
  show ?case
  proof (cases res)
    case (Inr ar)
    show ?thesis
    proof (cases ar)
      case Continue
      with Inr att Cons.prems have "download_loop lib url p attempts w1 = (Inr False, w')"
        by simp
      from Cons.IH [OF this] cases Inr Continue show ?thesis
        by (auto split: option.splits)
    next
      case ReturnTrue
      with Inr att Cons.prems show ?thesis by simp
    qed
  next
    case (Inl e)
    with att Cons.prems have req: "is_RequestException e"
      by (auto split: if_splits)
    have w1: "fs w1 = fs w \<or> partial_at lib url p w1"
      using cases Inl req by (auto simp: partial_at_def split: option.splits)
    show ?thesis
    proof (cases "a < MAX_RETRIES - 1")
      case True
      with Inl att Cons.prems req
      have "download_loop lib url p attempts (time_sleep (RETRY_DELAY * (a + 1)) w1) = (Inr False, w')"
        by simp
      from Cons.IH [OF this] have "fs w' = fs w1 \<or> partial_at lib url p w'"
        by (simp add: time_sleep_def)
      with w1 show ?thesis using partial_at_fs by metis
    next
      case False
      with Inl att Cons.prems req have "w' = w1" by simp
      with w1 show ?thesis by simp
    qed
  qed
qed

text \<open>
  Claim C2, amended. When \<^verbatim>\<open>download_file\<close> returns \<^verbatim>\<open>False\<close>, either the filesystem is as
  it was before the call (no attempt got as far as the body), or the destination holds
  what was written of the body of an answer whose stream broke with a request
  exception. Such a file is not removed.
\<close>

theorem download_failure_leaves:
  assumes "download_file lib url p w = (Inr False, w')"
  shows "fs w' = fs w
       \<or> (\<exists>tr r e. http_get lib tr url = Inr r \<and> status_code r \<noteq> 429
             \<and> raise_for_status r = None
             \<and> stream_error r = Some e \<and> is_RequestException e
             \<and> fs w' p = Some (File (concat (chunks r))))"
  using download_loop_failure [OF assms [unfolded download_file_def]]
  by (simp add: partial_at_def)

theorem download_failure_leaves_witness:
  "fst (download_file (fixture_lib (py ''42'') [] serve_truncated) (py ''https://x/files/cool.tar.gz'')
         (item_dir @ [py ''cool.tar.gz'']) empty_world) = Inr False
   \<and> fs (snd (download_file (fixture_lib (py ''42'') [] serve_truncated)
         (py ''https://x/files/cool.tar.gz'') (item_dir @ [py ''cool.tar.gz'']) empty_world))
        (item_dir @ [py ''cool.tar.gz'']) = Some (File [1, 2])
   \<and> (\<exists>tr r e. http_get (fixture_lib (py ''42'') [] serve_truncated) tr
           (py ''https://x/files/cool.tar.gz'') = Inr r
         \<and> stream_error r = Some e \<and> is_RequestException e
         \<and> concat (chunks r) = [1, 2])"
proof -
  define lib where "lib = fixture_lib (py ''42'') [] serve_truncated"
  define w' where "w' = snd (download_file lib (py ''https://x/files/cool.tar.gz'')
         (item_dir @ [py ''cool.tar.gz'']) empty_world)"
  have res: "fst (download_file lib (py ''https://x/files/cool.tar.gz'')
         (item_dir @ [py ''cool.tar.gz'']) empty_world) = Inr False"
    and left: "fs w' (item_dir @ [py ''cool.tar.gz'']) = Some (File [1, 2])"
    and before: "fs empty_world (item_dir @ [py ''cool.tar.gz'']) = None"
    unfolding lib_def w'_def by (simp_all add: fixture_eval program_eval)
  from res have "download_file lib (py ''https://x/files/cool.tar.gz'')
         (item_dir @ [py ''cool.tar.gz'']) empty_world = (Inr False, w')"
    unfolding w'_def by (metis prod.collapse)
  from download_failure_leaves [OF this]
  have "fs w' = fs empty_world
       \<or> (\<exists>tr r e. http_get lib tr (py ''https://x/files/cool.tar.gz'') = Inr r
             \<and> status_code r \<noteq> 429 \<and> raise_for_status r = None
             \<and> stream_error r = Some e \<and> is_RequestException e
             \<and> fs w' (item_dir @ [py ''cool.tar.gz'']) = Some (File (concat (chunks r))))" .
  moreover from left before have "fs w' \<noteq> fs empty_world" by auto
  ultimately obtain tr r e where "http_get lib tr (py ''https://x/files/cool.tar.gz'') = Inr r"
    "stream_error r = Some e" "is_RequestException e"
    "fs w' (item_dir @ [py ''cool.tar.gz'']) = Some (File (concat (chunks r)))"
    by blast
  with left have "\<exists>tr r e. http_get lib tr (py ''https://x/files/cool.tar.gz'') = Inr r
         \<and> stream_error r = Some e \<and> is_RequestException e \<and> concat (chunks r) = [1, 2]"
    by auto
  with res left show ?thesis unfolding lib_def w'_def by blast
qed

subsection \<open>The filesystem only grows\<close>

lemma mkdir_fold_dom:
  "dom m \<subseteq> dom (foldl (\<lambda>m q. if m q = None then m(q \<mapsto> Dir) else m) m qs)"
proof (induction qs arbitrary: m)
  case Nil
  show ?case by simp
next
  case (Cons q qs)
  have "dom m \<subseteq> dom (if m q = None then m(q \<mapsto> Dir) else m)" by auto
  also have "\<dots> \<subseteq> dom (foldl (\<lambda>m q. if m q = None then m(q \<mapsto> Dir) else m)
      (if m q = None then m(q \<mapsto> Dir) else m) qs)"
    by (rule Cons.IH)
  finally show ?case by simp
qed

lemma mkdir_p_dom: "dom m \<subseteq> dom (mkdir_p p m)"
  unfolding mkdir_p_def by (rule mkdir_fold_dom)

lemma write_chunks_dom:
  "dom (fs w) \<subseteq> dom (fs (write_chunks p r w))" "p \<in> dom (fs (write_chunks p r w))"
  using mkdir_p_dom [of "fs w" "butlast p"] by (auto simp: write_chunks_def)

lemma download_attempt_grows: "dom (fs w) \<subseteq> dom (fs (snd (download_attempt lib url p a w)))"
  using write_chunks_dom(1) [of "w\<lparr>trace := trace w @ [Get url]\<rparr>" p]
  by (auto simp: download_attempt_def session_get_def time_sleep_def
        split: sum.splits option.splits)

lemma download_loop_grows:
  "dom (fs w) \<subseteq> dom (fs (snd (download_loop lib url p attempts w)))"
proof (induction attempts arbitrary: w)
  case Nil
  show ?case by simp
next
  case (Cons a attempts)
  obtain res w1 where att: "download_attempt lib url p a w = (res, w1)"
    by (cases "download_attempt lib url p a w")
  with download_attempt_grows [of w lib url p a] have w1: "dom (fs w) \<subseteq> dom (fs w1)" by simp
  from Cons.IH [of w1] w1
  have l1: "dom (fs w) \<subseteq> dom (fs (snd (download_loop lib url p attempts w1)))" by blast
  from Cons.IH [of "time_sleep (RETRY_DELAY * (a + 1)) w1"] w1
  have l2: "dom (fs w) \<subseteq> dom (fs (snd (download_loop lib url p attempts
      (time_sleep (RETRY_DELAY * (a + 1)) w1))))"
    by (auto simp: time_sleep_def)
  show ?case
    using att w1 l1 l2 by (auto split: sum.splits attempt_result.splits)
qed

lemma download_file_grows: "dom (fs w) \<subseteq> dom (fs (snd (download_file lib url p w)))"
  unfolding download_file_def by (rule download_loop_grows)

lemma extract_archive_grows: "dom (fs w) \<subseteq> dom (fs (snd (extract_archive lib a d w)))"
  by (auto simp: extract_archive_def extract_try_def run_archive_library_def Let_def
        split: option.splits)

lemma fetch_link_grows: "dom (fs w) \<subseteq> dom (fs (snd (fetch_link lib url pd f c w)))"
proof -
  define w0 where "w0 = time_sleep DELAY_BETWEEN_REQUESTS w"
  have w0: "fs w0 = fs w" by (simp add: w0_def time_sleep_def)
  obtain res w1 where dl: "download_file lib url (pd @ [f]) w0 = (res, w1)"
    by (cases "download_file lib url (pd @ [f]) w0")
  with download_file_grows [of w0 lib url "pd @ [f]"] w0
  have w1: "dom (fs w) \<subseteq> dom (fs w1)" by simp
  with extract_archive_grows [of w1 lib "pd @ [f]" "pd @ [py ''src'']"]
  have ex: "dom (fs w) \<subseteq> dom (fs (snd (extract_archive lib (pd @ [f]) (pd @ [py ''src'']) w1)))"
    by blast
  show ?thesis
    using dl w1 ex
    by (auto simp: fetch_link_def Let_def w0_def [symmetric]
          split: sum.splits bool.splits prod.splits)
qed

lemma process_download_grows:
  "dom (fs w) \<subseteq> dom (fs (snd (process_download lib pn pd dl c w)))"
  using fetch_link_grows by (auto simp: process_download_def split: option.splits)

lemma process_downloads_grows:
  "dom (fs w) \<subseteq> dom (fs (snd (process_downloads lib pn pd dls c w)))"
proof (induction dls arbitrary: c w)
  case Nil
  show ?case by simp
next
  case (Cons dl dls)
  obtain res w1 where step: "process_download lib pn pd dl c w = (res, w1)"
    by (cases "process_download lib pn pd dl c w")
  with process_download_grows [of w lib pn pd dl c] have w1: "dom (fs w) \<subseteq> dom (fs w1)" by simp
  show ?case
  proof (cases res)
    case (Inl e)
    with step w1 show ?thesis by simp
  next
    case (Inr c1)
    from Cons.IH [where w = w1 and c = c1] w1 step Inr show ?thesis by auto
  qed
qed

lemma get_content_details_fs: "fs (snd (get_content_details lib cid w)) = fs w"
  by (auto simp: get_content_details_def session_get_def split: sum.splits option.splits)

lemma get_all_content_items_fs: "fs (snd (get_all_content_items lib w)) = fs w"
  by (auto simp: get_all_content_items_def session_get_def split: sum.splits option.splits)

lemma process_item_grows: "dom (fs w) \<subseteq> dom (fs (snd (process_item lib item c w)))"
proof -
  define w0 where "w0 = time_sleep DELAY_BETWEEN_REQUESTS w"
  obtain res w1 where det: "get_content_details lib (item_id item) w0 = (res, w1)"
    by (cases "get_content_details lib (item_id item) w0")
  with get_content_details_fs [of lib "item_id item" w0]
  have w1: "fs w1 = fs w" by (simp add: w0_def time_sleep_def)
  from process_downloads_grows [of w1] w1
  have "dom (fs w) \<subseteq> dom (fs (snd (process_downloads lib pn pd dls c w1)))" for pn pd dls
    by simp
  then show ?thesis
    using det w1
    by (auto simp: process_item_def Let_def w0_def [symmetric] split: sum.splits option.splits)
qed

lemma process_items_grows:
  "dom (fs w) \<subseteq> dom (fs (snd (process_items lib items c w)))"
proof (induction items arbitrary: c w)
  case Nil
  show ?case by simp
next
  case (Cons item items)
  obtain res w1 where step: "process_item lib item c w = (res, w1)"
    by (cases "process_item lib item c w")
  with process_item_grows [of w lib item c] have w1: "dom (fs w) \<subseteq> dom (fs w1)" by simp
  show ?case
  proof (cases res)
    case (Inl e)
    with step w1 show ?thesis by simp
  next
    case (Inr c1)
    from Cons.IH [where w = w1 and c = c1] w1 step Inr show ?thesis by auto
  qed
qed

subsection \<open>Fixed answers: a download that leaves no file fails the same way again\<close>

lemma fixed_answersD: "fixed_answers lib \<Longrightarrow> http_get lib tr url = http_get lib [] url"
  by (simp add: fixed_answers_def)

lemma attempt_writes:
  assumes "fixed_answers lib" "writes_body lib url"
  shows "p \<in> dom (fs (snd (download_attempt lib url p a w)))"
proof -
  from assms(2) obtain r where
    r: "http_get lib [] url = Inr r" "status_code r \<noteq> 429" "raise_for_status r = None"
    by (auto simp: writes_body_def)
  from fixed_answersD [OF assms(1), of "trace w" url] r(1)
  have "http_get lib (trace w) url = Inr r" by simp
  with r(2,3) write_chunks_dom(2) [of p r "w\<lparr>trace := trace w @ [Get url]\<rparr>"]
  show ?thesis
    by (auto simp: download_attempt_def session_get_def split: option.splits)
qed

lemma loop_writes:
  assumes "fixed_answers lib" "writes_body lib url" "attempts \<noteq> []"
  shows "p \<in> dom (fs (snd (download_loop lib url p attempts w)))"
proof -
  from assms(3) obtain a rest where attempts: "attempts = a # rest" by (cases attempts) auto
  obtain res w1 where att: "download_attempt lib url p a w = (res, w1)"
    by (cases "download_attempt lib url p a w")
  with attempt_writes [OF assms(1,2), of p a w] have w1: "p \<in> dom (fs w1)" by simp
  with download_loop_grows [of w1 lib url p rest]
  have l1: "p \<in> dom (fs (snd (download_loop lib url p rest w1)))" by blast
  from w1 download_loop_grows [of "time_sleep (RETRY_DELAY * (a + 1)) w1" lib url p rest]
  have l2: "p \<in> dom (fs (snd (download_loop lib url p rest (time_sleep (RETRY_DELAY * (a + 1)) w1))))"
    by (auto simp: time_sleep_def)
  show ?thesis
    unfolding attempts using att w1 l1 l2
    by (auto split: sum.splits attempt_result.splits)
qed

lemma attempt_no_write:
  assumes "fixed_answers lib" "\<not> writes_body lib url"
  shows "fs (snd (download_attempt lib url p a w)) = fs w
       \<and> fst (download_attempt lib url p a w) = fst (download_attempt lib url p a v)
       \<and> fst (download_attempt lib url p a w) \<noteq> Inr ReturnTrue"
proof -
  have "http_get lib (trace w) url = http_get lib [] url"
       "http_get lib (trace v) url = http_get lib [] url"
    using fixed_answersD [OF assms(1), of "trace w" url]
      fixed_answersD [OF assms(1), of "trace v" url] by simp_all
  with assms(2) show ?thesis
    by (auto simp: download_attempt_def session_get_def time_sleep_def writes_body_def
          split: sum.splits option.splits)
qed

lemma loop_no_write:
  assumes "fixed_answers lib" "\<not> writes_body lib url"
  shows "fs (snd (download_loop lib url p attempts w)) = fs w
       \<and> fst (download_loop lib url p attempts w) = fst (download_loop lib url p attempts v)
       \<and> fst (download_loop lib url p attempts w) \<noteq> Inr True"
proof (induction attempts arbitrary: w v)
  case Nil
  show ?case by simp
next
  case (Cons a attempts)
  obtain res w1 where attw: "download_attempt lib url p a w = (res, w1)"
    by (cases "download_attempt lib url p a w")
  obtain res' v1 where attv: "download_attempt lib url p a v = (res', v1)"
    by (cases "download_attempt lib url p a v")
  from attempt_no_write [OF assms, of p a w v] attw attv
  have same: "res' = res" "fs w1 = fs w" "res \<noteq> Inr ReturnTrue" by auto
  note ih1 = Cons.IH [of w1 v1]
  note ih2 = Cons.IH [of "time_sleep (RETRY_DELAY * (a + 1)) w1" "time_sleep (RETRY_DELAY * (a + 1)) v1"]
  show ?case
    using attw attv same ih1 ih2
    by (auto simp: time_sleep_def split: sum.splits attempt_result.splits)
qed

lemma download_file_fixed:
  assumes "fixed_answers lib"
  shows "p \<in> dom (fs (snd (download_file lib url p w)))
       \<or> (fs (snd (download_file lib url p w)) = fs w
          \<and> fst (download_file lib url p w) \<noteq> Inr True
          \<and> (\<forall>v. fst (download_file lib url p v) = fst (download_file lib url p w)
                 \<and> fs (snd (download_file lib url p v)) = fs v))"
proof (cases "writes_body lib url")
  case True
  have "[0..<MAX_RETRIES] \<noteq> []" by (simp add: MAX_RETRIES_def)
  from loop_writes [OF assms True this] show ?thesis by (simp add: download_file_def)
next
  case False
  from loop_no_write [OF assms False] show ?thesis
    unfolding download_file_def by metis
qed

lemma download_file_True_writes:
  assumes "download_file lib url p w = (Inr True, w1)"
  shows "p \<in> dom (fs w1)"
proof -
  have "download_loop lib url p attempts w = (Inr True, w1) \<Longrightarrow> p \<in> dom (fs w1)" for attempts
  proof (induction attempts arbitrary: w)
    case Nil
    then show ?case by simp
  next
    case (Cons a attempts)
    obtain res w2 where att: "download_attempt lib url p a w = (res, w2)"
      by (cases "download_attempt lib url p a w")
    have "res = Inr ReturnTrue \<Longrightarrow> p \<in> dom (fs w2)"
      using att write_chunks_dom(2) [of p _ "w\<lparr>trace := trace w @ [Get url]\<rparr>"]
      by (auto simp: download_attempt_def session_get_def split: sum.splits option.splits if_splits)
    with Cons att show ?case
      by (auto split: sum.splits attempt_result.splits if_splits)
  qed
  with assms show ?thesis by (simp add: download_file_def)
qed

subsection \<open>Replaying a run on the filesystem it left\<close>

lemma replay_refl: "replay c c k k"
  by (simp add: replay_def)

lemma replay_trans: "replay c c1 k k1 \<Longrightarrow> replay c1 c' k1 k' \<Longrightarrow> replay c c' k k'"
  by (auto simp: replay_def)


lemma fetch_link_replay:
  assumes fixed: "fixed_answers lib"
    and run1: "fetch_link lib url pd f c A = (Inr c', A')"
    and future: "dom (fs A') \<subseteq> dom (fs F)"
  shows "\<exists>k' F'. fetch_link lib url pd f k F = (Inr k', F') \<and> fs F' = fs F \<and> replay c c' k k'"
proof (cases "path_exists F (pd @ [f])")
  case True
  from fetch_link_counts [OF run1]
  have "replay c c' k (k\<lparr>skipped_count := skipped_count k + 1\<rparr>)"
    by (auto simp: replay_def total_def)
  with fetch_link_exists [OF True] show ?thesis by simp
next
  case False
  define p where "p = pd @ [f]"
  define A0 where "A0 = time_sleep DELAY_BETWEEN_REQUESTS A"
  define F0 where "F0 = time_sleep DELAY_BETWEEN_REQUESTS F"
  have fs0: "fs A0 = fs A" "fs F0 = fs F" by (simp_all add: A0_def F0_def time_sleep_def)
  from False have pF: "p \<notin> dom (fs F)" by (auto simp: path_exists_def p_def)
  with future have pA': "p \<notin> dom (fs A')" by blast
  from fetch_link_grows [of A lib url pd f c] run1 have "dom (fs A) \<subseteq> dom (fs A')" by simp
  with pA' have pA: "\<not> path_exists A p" by (auto simp: path_exists_def)
  obtain res A1 where dl: "download_file lib url p A0 = (res, A1)"
    by (cases "download_file lib url p A0")
  have not_True: "res \<noteq> Inr True"
  proof
    assume res: "res = Inr True"
    with dl have "p \<in> dom (fs A1)" by (simp add: download_file_True_writes)
    moreover have "dom (fs A1) \<subseteq> dom (fs A')"
      using run1 pA dl res extract_archive_grows [of A1 lib p "pd @ [py ''src'']"]
      by (auto simp: fetch_link_def Let_def p_def [symmetric] A0_def [symmetric]
            split: if_splits sum.splits prod.splits)
    ultimately show False using pA' by blast
  qed
  with run1 pA dl have res: "res = Inr False" and A': "A' = A1"
    and c': "c' = c\<lparr>failed_count := failed_count c + 1\<rparr>"
    by (auto simp: fetch_link_def Let_def p_def [symmetric] A0_def [symmetric]
          split: if_splits sum.splits prod.splits bool.splits)
  from pA' A' dl have "p \<notin> dom (fs (snd (download_file lib url p A0)))" by simp
  with download_file_fixed [OF fixed, of p url A0] dl res
  have again: "fst (download_file lib url p F0) = Inr False"
    "fs (snd (download_file lib url p F0)) = fs F0"
    by auto
  obtain F1 where dl2: "download_file lib url p F0 = (Inr False, F1)" and F1: "fs F1 = fs F"
    using again fs0 by (cases "download_file lib url p F0") auto
  have "fetch_link lib url pd f k F = (Inr (k\<lparr>failed_count := failed_count k + 1\<rparr>), F1)"
    using False dl2 by (simp add: fetch_link_def Let_def p_def [symmetric] F0_def [symmetric])
  moreover have "replay c c' k (k\<lparr>failed_count := failed_count k + 1\<rparr>)"
    by (simp add: c' replay_def total_def)
  ultimately show ?thesis using F1 by blast
qed

lemma process_download_replay:
  assumes fixed: "fixed_answers lib"
    and run1: "process_download lib pn pd dl c A = (Inr c', A')"
    and future: "dom (fs A') \<subseteq> dom (fs F)"
  shows "\<exists>k' F'. process_download lib pn pd dl k F = (Inr k', F') \<and> fs F' = fs F
           \<and> replay c c' k k'"
proof (cases "dl_url dl = [] \<or> target_filename lib pn dl = None")
  case True
  with run1 have "c' = c" by (auto simp: process_download_def split: if_splits)
  moreover from True have "process_download lib pn pd dl k F = (Inr k, F)"
    by (auto simp: process_download_def)
  ultimately show ?thesis by (simp add: replay_refl)
next
  case False
  then obtain f where f: "target_filename lib pn dl = Some f" "dl_url dl \<noteq> []" by auto
  with run1 have "fetch_link lib (dl_url dl) pd f c A = (Inr c', A')"
    by (simp add: process_download_def)
  from fetch_link_replay [OF fixed this future, of k] f show ?thesis
    by (simp add: process_download_def)
qed

lemma process_downloads_replay:
  assumes fixed: "fixed_answers lib"
  shows "process_downloads lib pn pd dls c A = (Inr c', A') \<Longrightarrow> dom (fs A') \<subseteq> dom (fs F)
    \<Longrightarrow> \<exists>k' F'. process_downloads lib pn pd dls k F = (Inr k', F') \<and> fs F' = fs F
           \<and> replay c c' k k'"
proof (induction dls arbitrary: c A k F)
  case Nil
  then show ?case by (simp add: replay_refl)
next
  case (Cons dl dls)
  obtain res A1 where step: "process_download lib pn pd dl c A = (res, A1)"
    by (cases "process_download lib pn pd dl c A")
  with Cons.prems(1) obtain c1 where res: "res = Inr c1"
    and rest: "process_downloads lib pn pd dls c1 A1 = (Inr c', A')"
    by (cases res) auto
  from process_downloads_grows [of A1 lib pn pd dls c1] rest Cons.prems(2)
  have "dom (fs A1) \<subseteq> dom (fs F)" by auto
  from process_download_replay [OF fixed step [unfolded res] this, of k]
  obtain k1 F1 where step2: "process_download lib pn pd dl k F = (Inr k1, F1)"
    and F1: "fs F1 = fs F" and r1: "replay c c1 k k1" by blast
  from Cons.prems(2) F1 have "dom (fs A') \<subseteq> dom (fs F1)" by simp
  from Cons.IH [OF rest this, of k1]
  obtain k' F' where rest2: "process_downloads lib pn pd dls k1 F1 = (Inr k', F')"
    and F': "fs F' = fs F1" and r2: "replay c1 c' k1 k'" by blast
  from step2 rest2 F' F1 replay_trans [OF r1 r2] show ?case by simp
qed

lemma get_content_details_fixed:
  assumes "fixed_answers lib"
  shows "fst (get_content_details lib cid w) = fst (get_content_details lib cid v)"
  using fixed_answersD [OF assms, of "trace w" "detail_url cid"]
    fixed_answersD [OF assms, of "trace v" "detail_url cid"]
  by (auto simp: get_content_details_def session_get_def split: sum.splits option.splits)

lemma get_all_content_items_fixed:
  assumes "fixed_answers lib"
  shows "fst (get_all_content_items lib w) = fst (get_all_content_items lib v)"
  using fixed_answersD [OF assms, of "trace w" listing_url]
    fixed_answersD [OF assms, of "trace v" listing_url]
  by (auto simp: get_all_content_items_def session_get_def split: sum.splits option.splits)

lemma process_item_replay:
  assumes fixed: "fixed_answers lib"
    and run1: "process_item lib item c A = (Inr c', A')"
    and future: "dom (fs A') \<subseteq> dom (fs F)"
  shows "\<exists>k' F'. process_item lib item k F = (Inr k', F') \<and> fs F' = fs F \<and> replay c c' k k'"
proof -
  define A0 where "A0 = time_sleep DELAY_BETWEEN_REQUESTS A"
  define F0 where "F0 = time_sleep DELAY_BETWEEN_REQUESTS F"
  obtain r A1 where det1: "get_content_details lib (item_id item) A0 = (r, A1)"
    by (cases "get_content_details lib (item_id item) A0")
  obtain r' F1 where det2: "get_content_details lib (item_id item) F0 = (r', F1)"
    by (cases "get_content_details lib (item_id item) F0")
  from get_content_details_fixed [OF fixed, of "item_id item" A0 F0] det1 det2
  have same: "r' = r" by simp
  from get_content_details_fs [of lib "item_id item" F0] det2
  have F1: "fs F1 = fs F" by (simp add: F0_def time_sleep_def)
  from run1 det1 obtain d where r: "r = Inr d"
    by (cases r) (auto simp: process_item_def Let_def A0_def [symmetric])
  show ?thesis
  proof (cases "d = None \<or> (\<exists>details. d = Some details \<and> downloads details = [])")
    case True
    with run1 det1 r have "c' = c\<lparr>failed_count := failed_count c + 1\<rparr>"
      by (auto simp: process_item_def Let_def A0_def [symmetric])
    then have "replay c c' k (k\<lparr>failed_count := failed_count k + 1\<rparr>)"
      by (simp add: replay_def total_def)
    moreover from True det2 same r
    have "process_item lib item k F = (Inr (k\<lparr>failed_count := failed_count k + 1\<rparr>), F1)"
      by (auto simp: process_item_def Let_def F0_def [symmetric])
    ultimately show ?thesis using F1 by blast
  next
    case False
    then obtain details where d: "d = Some details" "downloads details \<noteq> []" by auto
    define pn where "pn = sanitize_filename (item_name item)"
    from run1 det1 r d
    have "process_downloads lib pn (OUTPUT_DIR @ [pn]) (downloads details) c A1 = (Inr c', A')"
      by (simp add: process_item_def Let_def A0_def [symmetric] pn_def)
    moreover from future F1 have "dom (fs A') \<subseteq> dom (fs F1)" by simp
    ultimately obtain k' F' where
      "process_downloads lib pn (OUTPUT_DIR @ [pn]) (downloads details) k F1 = (Inr k', F')"
      "fs F' = fs F1" "replay c c' k k'"
      using process_downloads_replay [OF fixed] by blast
    with det2 same r d F1 show ?thesis
      by (simp add: process_item_def Let_def F0_def [symmetric] pn_def)
  qed
qed

lemma process_items_replay:
  assumes fixed: "fixed_answers lib"
  shows "process_items lib items c A = (Inr c', A') \<Longrightarrow> dom (fs A') \<subseteq> dom (fs F)
    \<Longrightarrow> \<exists>k' F'. process_items lib items k F = (Inr k', F') \<and> fs F' = fs F \<and> replay c c' k k'"
proof (induction items arbitrary: c A k F)
  case Nil
  then show ?case by (simp add: replay_refl)
next
  case (Cons item items)
  obtain res A1 where step: "process_item lib item c A = (res, A1)"
    by (cases "process_item lib item c A")
  with Cons.prems(1) obtain c1 where res: "res = Inr c1"
    and rest: "process_items lib items c1 A1 = (Inr c', A')"
    by (cases res) auto
  from process_items_grows [of A1 lib items c1] rest Cons.prems(2)
  have "dom (fs A1) \<subseteq> dom (fs F)" by auto
  from process_item_replay [OF fixed step [unfolded res] this, of k]
  obtain k1 F1 where step2: "process_item lib item k F = (Inr k1, F1)"
    and F1: "fs F1 = fs F" and r1: "replay c c1 k k1" by blast
  from Cons.prems(2) F1 have "dom (fs A') \<subseteq> dom (fs F1)" by simp
  from Cons.IH [OF rest this, of k1]
  obtain k' F' where rest2: "process_items lib items k1 F1 = (Inr k', F')"
    and F': "fs F' = fs F1" and r2: "replay c1 c' k1 k'" by blast
  from step2 rest2 F' F1 replay_trans [OF r1 r2] show ?case by simp
qed

lemma mkdir_output_dir: "mkdir_p OUTPUT_DIR m = (if m OUTPUT_DIR = None then m(OUTPUT_DIR \<mapsto> Dir) else m)"
  by (simp add: mkdir_p_def OUTPUT_DIR_def)

lemma main_replay:
  assumes fixed: "fixed_answers lib"
    and run1: "main lib w = (Inr c1, w1)"
  shows "\<exists>c2 w2. main lib w1 = (Inr c2, w2) \<and> fs w2 = fs w1
           \<and> replay \<lparr>downloaded_count = 0, failed_count = 0, skipped_count = 0\<rparr> c1
                \<lparr>downloaded_count = 0, failed_count = 0, skipped_count = 0\<rparr> c2"
proof -
  define zero where "zero = \<lparr>downloaded_count = 0, failed_count = 0, skipped_count = 0\<rparr>"
  define A where "A = w\<lparr>fs := mkdir_p OUTPUT_DIR (fs w)\<rparr>"
  obtain r A1 where list1: "get_all_content_items lib A = (r, A1)"
    by (cases "get_all_content_items lib A")
  with run1 obtain items where r: "r = Inr items"
    and items1: "process_items lib items zero A1 = (Inr c1, w1)"
    by (cases r) (auto simp: main_def A_def [symmetric] zero_def)
  have "OUTPUT_DIR \<in> dom (fs A)" by (auto simp: A_def mkdir_output_dir)
  moreover have "fs A1 = fs A" using get_all_content_items_fs [of lib A] list1 by simp
  moreover have "dom (fs A1) \<subseteq> dom (fs w1)"
    using process_items_grows [of A1 lib items zero] items1 by simp
  ultimately have "OUTPUT_DIR \<in> dom (fs w1)" by auto
  then have same_world: "w1\<lparr>fs := mkdir_p OUTPUT_DIR (fs w1)\<rparr> = w1"
    by (auto simp: mkdir_output_dir)
  obtain r' F where list2: "get_all_content_items lib w1 = (r', F)"
    by (cases "get_all_content_items lib w1")
  from get_all_content_items_fixed [OF fixed, of A w1] list1 list2 r
  have r': "r' = Inr items" by simp
  from get_all_content_items_fs [of lib w1] list2 have F: "fs F = fs w1" by simp
  then have "dom (fs w1) \<subseteq> dom (fs F)" by simp
  from process_items_replay [OF fixed items1 this, of zero]
  obtain c2 w2 where "process_items lib items zero F = (Inr c2, w2)" "fs w2 = fs F"
    "replay zero c1 zero c2" by blast
  with list2 r' F same_world show ?thesis
    by (simp add: main_def zero_def)
qed

text \<open>
  Claim C3 as stated fails. Two links of one item that both get the synthesized name
  share a destination: the first run, on an empty filesystem, downloads the first and
  skips the second, and the second run skips both. Its skipped counter is 2, the first
  run's downloaded counter is 1.
\<close>

theorem second_run_counterexample:
  "fs empty_world = Map.empty
   \<and> fst (main (fixture_lib (py ''42'') [py ''https://x/download/1'', py ''https://x/download/2'']
        serve_all) empty_world)
       = Inr \<lparr>downloaded_count = 1, failed_count = 0, skipped_count = 1\<rparr>
   \<and> fst (main (fixture_lib (py ''42'') [py ''https://x/download/1'', py ''https://x/download/2'']
        serve_all)
        (snd (main (fixture_lib (py ''42'') [py ''https://x/download/1'', py ''https://x/download/2'']
           serve_all) empty_world)))
       = Inr \<lparr>downloaded_count = 0, failed_count = 0, skipped_count = 2\<rparr>"
  by (simp add: fixture_eval program_eval)

text \<open>
  Claim C3, amended. Against a remote whose answer to each URL is fixed, a second run
  on the filesystem the first run left completes, downloads nothing, leaves the
  filesystem as it is, and counts as many links and items as the first: its skipped
  and failed counters add up to the first run's downloaded, skipped and failed
  counters, and it fails no more often. So the second run skips at least what the
  first run downloaded or skipped, and exactly the first run's downloads only when the
  first run skipped nothing and every link that failed fails again. For a link with a
  target file name whose destination exists, nothing is requested and the skipped
  counter goes up by one.
\<close>

theorem second_run:
  assumes "fixed_answers lib" and "main lib w = (Inr c1, w1)"
  shows "(\<exists>c2 w2. main lib w1 = (Inr c2, w2) \<and> fs w2 = fs w1
            \<and> downloaded_count c2 = 0
            \<and> skipped_count c2 + failed_count c2
                = downloaded_count c1 + skipped_count c1 + failed_count c1
            \<and> failed_count c2 \<le> failed_count c1
            \<and> downloaded_count c1 + skipped_count c1 \<le> skipped_count c2)
       \<and> (dl_url dl \<noteq> [] \<and> target_filename lib pn dl = Some f \<and> path_exists v (pd @ [f])
            \<longrightarrow> process_download lib pn pd dl c v
                  = (Inr (c\<lparr>skipped_count := skipped_count c + 1\<rparr>), v))"
proof (intro conjI impI)
  from main_replay [OF assms]
  show "\<exists>c2 w2. main lib w1 = (Inr c2, w2) \<and> fs w2 = fs w1
            \<and> downloaded_count c2 = 0
            \<and> skipped_count c2 + failed_count c2
                = downloaded_count c1 + skipped_count c1 + failed_count c1
            \<and> failed_count c2 \<le> failed_count c1
            \<and> downloaded_count c1 + skipped_count c1 \<le> skipped_count c2"
    by (auto simp: replay_def total_def)
next
  assume "dl_url dl \<noteq> [] \<and> target_filename lib pn dl = Some f \<and> path_exists v (pd @ [f])"
  then show "process_download lib pn pd dl c v
      = (Inr (c\<lparr>skipped_count := skipped_count c + 1\<rparr>), v)"
    by (simp add: process_download_def fetch_link_exists)
qed

lemma fixture_fixed: "fixed_answers (fixture_lib ident urls files)"
  by (simp add: fixed_answers_def fixture_lib_def)

lemma cool_first_run:
  "fst (main (fixture_lib (py ''42'') [py ''https://x/files/cool.tar.gz''] serve_all) empty_world)
     = Inr \<lparr>downloaded_count = 1, failed_count = 0, skipped_count = 0\<rparr>"
  by (simp add: fixture_eval program_eval)

theorem second_run_witness:
  "fixed_answers (fixture_lib (py ''42'') [py ''https://x/files/cool.tar.gz''] serve_all)
   \<and> fst (main (fixture_lib (py ''42'') [py ''https://x/files/cool.tar.gz''] serve_all) empty_world)
       = Inr \<lparr>downloaded_count = 1, failed_count = 0, skipped_count = 0\<rparr>
   \<and> (\<exists>c2 w2.
         main (fixture_lib (py ''42'') [py ''https://x/files/cool.tar.gz''] serve_all)
           (snd (main (fixture_lib (py ''42'') [py ''https://x/files/cool.tar.gz''] serve_all)
              empty_world)) = (Inr c2, w2)
         \<and> downloaded_count c2 = 0 \<and> skipped_count c2 = 1 \<and> failed_count c2 = 0)"
proof -
  define lib where "lib = fixture_lib (py ''42'') [py ''https://x/files/cool.tar.gz''] serve_all"
  have fixed: "fixed_answers lib" unfolding lib_def by (rule fixture_fixed)
  have first: "fst (main lib empty_world)
      = Inr \<lparr>downloaded_count = 1, failed_count = 0, skipped_count = 0\<rparr>"
    unfolding lib_def by (rule cool_first_run)
  then have run1: "main lib empty_world
      = (Inr \<lparr>downloaded_count = 1, failed_count = 0, skipped_count = 0\<rparr>, snd (main lib empty_world))"
    by (metis prod.collapse)
  from second_run [OF fixed run1, THEN conjunct1]
  obtain c2 w2 where "main lib (snd (main lib empty_world)) = (Inr c2, w2)"
    "downloaded_count c2 = 0" "skipped_count c2 + failed_count c2 = 1" "1 \<le> skipped_count c2"
    by auto
  then have "\<exists>c2 w2. main lib (snd (main lib empty_world)) = (Inr c2, w2)
         \<and> downloaded_count c2 = 0 \<and> skipped_count c2 = 1 \<and> failed_count c2 = 0"
    by auto
  with fixed first show ?thesis unfolding lib_def by blast
qed

end
